theory Spec2Isabelle
  imports Complex_Main "HOL-Library.AList"
begin

section \<open>Strings and numbers of the host language\<close>

text \<open>
  The program is TypeScript. Its \<^verbatim>\<open>number\<close> is modelled by \<^typ>\<open>real\<close>: the rounding
  of binary floating point and the infinities are outside the model, and NaN appears, as
  \<open>None\<close>, only where a parser can produce it. Its \<^verbatim>\<open>string\<close> is modelled by
  \<^typ>\<open>string\<close>, a list of code units below 256. Functions and record fields keep
  their names; a name that Isabelle or another record has taken already carries a prime
  or a suffix (\<open>id'\<close>, \<open>end'\<close>, \<open>text'\<close>, \<open>text_c\<close>, \<open>startTime_p\<close>).
\<close>

definition is_space :: "char \<Rightarrow> bool" where
  \<comment> \<open>the class \<^verbatim>\<open>\s\<close>, which is also what \<^verbatim>\<open>trim()\<close> strips: TAB, LF, VT, FF, CR, SP, NBSP\<close>
  "is_space c = (c \<in> set [CHR 0x09, CHR 0x0A, CHR 0x0B, CHR 0x0C, CHR 0x0D, CHR 0x20, CHR 0xA0])"

definition is_line_terminator :: "char \<Rightarrow> bool" where
  \<comment> \<open>what \<^verbatim>\<open>.\<close> does not match in a regular expression\<close>
  "is_line_terminator c = (c \<in> set [CHR 0x0A, CHR 0x0D])"

definition is_sentence_end :: "char \<Rightarrow> bool" where
  \<comment> \<open>the class \<^verbatim>\<open>[.!?]\<close>\<close>
  "is_sentence_end c = (c \<in> set [CHR ''.'', CHR ''!'', CHR ''?''])"

definition trim :: "string \<Rightarrow> string" where
  "trim s = rev (dropWhile is_space (rev (dropWhile is_space s)))"

text \<open>\<^verbatim>\<open>s.replace(/\s+/g, ' ')\<close>: every maximal run of white space becomes one blank.\<close>

function collapse_ws :: "string \<Rightarrow> string" where
  "collapse_ws [] = []"
| "collapse_ws (c # cs) =
     (if is_space c then CHR '' '' # collapse_ws (dropWhile is_space cs)
      else c # collapse_ws cs)"
  by pat_completeness auto
termination
  by (relation "measure length") (auto simp: le_imp_less_Suc length_dropWhile_le)

text \<open>
  \<^verbatim>\<open>s.split(/[class]+/)\<close>: the pieces between the maximal runs of the class; a run at
  either end leaves an empty piece there, and the empty string gives one empty piece.
\<close>

function split_runs :: "(char \<Rightarrow> bool) \<Rightarrow> string \<Rightarrow> string list" where
  "split_runs p s =
     (case dropWhile (\<lambda>c. \<not> p c) s of
        [] \<Rightarrow> [s]
      | x # r \<Rightarrow> takeWhile (\<lambda>c. \<not> p c) s # split_runs p (dropWhile p r))"
  by pat_completeness auto
termination
proof (relation "measure (\<lambda>(p, s). length s)")
  show "wf (measure (\<lambda>(p, s). length s))" by simp
next
  fix p :: "char \<Rightarrow> bool" and s :: string and x :: char and r :: string
  assume a: "dropWhile (\<lambda>c. \<not> p c) s = x # r"
  have "length (dropWhile p r) \<le> length r" by (rule length_dropWhile_le)
  moreover have "length (x # r) \<le> length s"
    using length_dropWhile_le [of "\<lambda>c. \<not> p c" s] a by simp
  ultimately show "((p, dropWhile p r), (p, s)) \<in> measure (\<lambda>(p, s). length s)"
    by simp
qed

declare split_runs.simps [simp del]

definition wordCount :: "string \<Rightarrow> nat" where
  \<comment> \<open>\<^verbatim>\<open>s.split(/\s+/).length\<close>\<close>
  "wordCount s = length (split_runs is_space s)"

fun join_sp :: "string list \<Rightarrow> string" where
  \<comment> \<open>\<^verbatim>\<open>xs.join(' ')\<close>\<close>
  "join_sp [] = []"
| "join_sp [x] = x"
| "join_sp (x # y # ys) = x @ CHR '' '' # join_sp (y # ys)"

definition digit_char :: "nat \<Rightarrow> char" where
  "digit_char n = ''0123456789'' ! n"

fun nat_to_string :: "nat \<Rightarrow> string" where
  \<comment> \<open>\<^verbatim>\<open>n.toString()\<close> of a non-negative integer\<close>
  "nat_to_string n =
     (if n < 10 then [digit_char n] else nat_to_string (n div 10) @ [digit_char (n mod 10)])"

declare nat_to_string.simps [simp del]

section \<open>Data model\<close>

record CaptionData =
  start :: real
  end' :: real
  text_c :: string

text \<open>
  The front end declares \<open>translation\<close>, \<open>audioUrl\<close> and \<open>videoUrl\<close> optional; the back end
  declares them strings, which is the case where all three are \<open>Some\<close>.
\<close>

record VideoSegment =
  id' :: string
  startTime :: real
  endTime :: real
  text' :: string
  translation :: "string option"
  audioUrl :: "string option"
  videoUrl :: "string option"

record SegmentationOptions =
  segmentDuration :: real
  overlap :: real
  minSegmentDuration :: real
  maxSegmentDuration :: real
  preferSentenceBoundaries :: bool
  maxWordsPerSegment :: real

text \<open>
  The options as a caller passes them: \<^verbatim>\<open>Partial<SegmentationOptions>\<close> in the front end,
  an object whose last four fields are optional in the back end. \<open>None\<close> is an absent (or
  undefined) property.
\<close>

record PartialOptions =
  p_segmentDuration :: "real option"
  p_overlap :: "real option"
  p_minSegmentDuration :: "real option"
  p_maxSegmentDuration :: "real option"
  p_preferSentenceBoundaries :: "bool option"
  p_maxWordsPerSegment :: "real option"


definition or_default :: "'a option \<Rightarrow> 'a \<Rightarrow> 'a" where
  "or_default v d = (case v of None \<Rightarrow> d | Some x \<Rightarrow> x)"

definition resolve_options :: "PartialOptions \<Rightarrow> SegmentationOptions" where
  \<comment> \<open>\<^verbatim>\<open>{ ...DEFAULT_SEGMENTATION_OPTIONS, ...options }\<close>, and the destructuring defaults
      of \<^verbatim>\<open>createSegments\<close>, which are the same six values\<close>
  "resolve_options po =
     \<lparr>segmentDuration = or_default (p_segmentDuration po) 8,
      overlap = or_default (p_overlap po) 1,
      minSegmentDuration = or_default (p_minSegmentDuration po) 3,
      maxSegmentDuration = or_default (p_maxSegmentDuration po) 15,
      preferSentenceBoundaries = or_default (p_preferSentenceBoundaries po) True,
      maxWordsPerSegment = or_default (p_maxWordsPerSegment po) 20\<rparr>"

definition no_options :: PartialOptions where
  \<comment> \<open>the empty object \<^verbatim>\<open>{}\<close>\<close>
  "no_options =
     \<lparr>p_segmentDuration = None, p_overlap = None, p_minSegmentDuration = None,
      p_maxSegmentDuration = None, p_preferSentenceBoundaries = None,
      p_maxWordsPerSegment = None\<rparr>"

section \<open>Segment building\<close>

text \<open>
  The body of the \<^verbatim>\<open>for (const sentence of sentences)\<close> loop with its \<^verbatim>\<open>break\<close>:
  \<open>txt\<close> and \<open>words\<close> are the loop's two variables.
\<close>

fun take_sentences :: "real \<Rightarrow> string list \<Rightarrow> string \<Rightarrow> nat \<Rightarrow> string" where
  "take_sentences maxWords [] txt words = txt"
| "take_sentences maxWords (sentence # rest) txt words =
     (let sentenceWords = wordCount (trim sentence) in
      if real (words + sentenceWords) \<le> maxWords \<and> trim sentence \<noteq> []
      then take_sentences maxWords rest
             (txt @ (if txt \<noteq> [] then ''. '' else []) @ trim sentence)
             (words + sentenceWords)
      else txt)"

definition limit_words :: "SegmentationOptions \<Rightarrow> string \<Rightarrow> string" where
  \<comment> \<open>"Check if segment is too long (too many words)"\<close>
  "limit_words opts combinedText =
     (if real (wordCount combinedText) > maxWordsPerSegment opts \<and> preferSentenceBoundaries opts
      then
        (let sentences = split_runs is_sentence_end combinedText in
         if length sentences > 1
         then (let txt = take_sentences (maxWordsPerSegment opts) sentences [] 0 in
               if txt \<noteq> [] then txt else combinedText)
         else combinedText)
      else combinedText)"

definition combine_text :: "CaptionData list \<Rightarrow> string" where
  "combine_text segmentCaptions = trim (collapse_ws (join_sp (map text_c segmentCaptions)))"

fun max_end :: "CaptionData list \<Rightarrow> real" where
  \<comment> \<open>\<^verbatim>\<open>Math.max(...captions.map(c => c.end))\<close> of a list that is not empty\<close>
  "max_end [] = 0"
| "max_end [c] = end' c"
| "max_end (c # d # cs) = max (end' c) (max_end (d # cs))"

text \<open>
  The \<^verbatim>\<open>while\<close> loop of \<^verbatim>\<open>createSegments\<close> and \<^verbatim>\<open>createVideoSegments\<close>. The two
  differ in the artifact locators they store only, so the loop takes \<open>urls\<close>, which builds
  them from the ordinal and the bounds. The loop need not end (an overlap that is not
  below the segment duration stalls the clock), so it runs on fuel: \<open>None\<close> is a loop
  that has not returned within \<open>fuel\<close> iterations.
\<close>

fun segment_loop ::
  "nat \<Rightarrow> (nat \<Rightarrow> real \<Rightarrow> real \<Rightarrow> string option \<times> string option) \<Rightarrow> SegmentationOptions \<Rightarrow>
   real \<Rightarrow> CaptionData list \<Rightarrow> real \<Rightarrow> nat \<Rightarrow> VideoSegment list \<Rightarrow> VideoSegment list option" where
  "segment_loop 0 urls opts maxEnd sortedCaptions currentTime segmentId segments = None"
| "segment_loop (Suc fuel) urls opts maxEnd sortedCaptions currentTime segmentId segments =
     (if currentTime < maxEnd then
        (let segmentEnd = min (currentTime + segmentDuration opts) maxEnd;
             segmentCaptions =
               filter (\<lambda>caption. start caption < segmentEnd \<and> end' caption > currentTime)
                 sortedCaptions
         in
         if segmentCaptions \<noteq> [] then
           (let combinedText = limit_words opts (combine_text segmentCaptions);
                actualStart = max currentTime (start (hd segmentCaptions));
                actualEnd = min segmentEnd (end' (last segmentCaptions))
            in
            if actualEnd - actualStart \<ge> minSegmentDuration opts
            then segment_loop fuel urls opts maxEnd sortedCaptions
                   (currentTime + (segmentDuration opts - overlap opts)) (segmentId + 1)
                   (segments @
                    [\<lparr>id' = nat_to_string segmentId, startTime = actualStart,
                      endTime = actualEnd, text' = combinedText, translation = Some [],
                      audioUrl = fst (urls segmentId actualStart actualEnd),
                      videoUrl = snd (urls segmentId actualStart actualEnd)\<rparr>])
            else segment_loop fuel urls opts maxEnd sortedCaptions
                   (currentTime + (segmentDuration opts - overlap opts)) segmentId segments)
         else segment_loop fuel urls opts maxEnd sortedCaptions
                (currentTime + segmentDuration opts) segmentId segments)
      else Some segments)"

definition build_segments ::
  "nat \<Rightarrow> (nat \<Rightarrow> real \<Rightarrow> real \<Rightarrow> string option \<times> string option) \<Rightarrow> CaptionData list \<Rightarrow>
   PartialOptions \<Rightarrow> VideoSegment list option" where
  "build_segments fuel urls captions options =
     (if captions = [] then Some []
      else segment_loop fuel urls (resolve_options options) (max_end captions)
             (sort_key start captions) 0 1 [])"

definition createSegments ::
  "nat \<Rightarrow> CaptionData list \<Rightarrow> PartialOptions \<Rightarrow> VideoSegment list option" where
  \<comment> \<open>\<^verbatim>\<open>CaptionProcessor.createSegments\<close>: both locators are the empty string\<close>
  "createSegments fuel captions options =
     build_segments fuel (\<lambda>segmentId actualStart actualEnd. (Some [], Some [])) captions options"

definition generateAudioUrl :: "(real \<Rightarrow> string) \<Rightarrow> nat \<Rightarrow> real \<Rightarrow> real \<Rightarrow> string" where
  "generateAudioUrl num segmentId t0 t1 =
     ''/api/audio/segment_'' @ nat_to_string segmentId @ ''_'' @ num t0 @ ''_''
       @ num t1 @ ''.mp3''"

definition generateVideoUrl :: "(real \<Rightarrow> string) \<Rightarrow> nat \<Rightarrow> real \<Rightarrow> real \<Rightarrow> string" where
  "generateVideoUrl num segmentId t0 t1 =
     ''/api/video/segment_'' @ nat_to_string segmentId @ ''_'' @ num t0 @ ''_''
       @ num t1 @ ''.mp4''"

definition createVideoSegments ::
  "(real \<Rightarrow> string) \<Rightarrow> nat \<Rightarrow> CaptionData list \<Rightarrow> PartialOptions \<Rightarrow> VideoSegment list option" where
  \<comment> \<open>the front end's builder; \<open>num\<close> is the host's conversion of a number to a string
      inside a template literal\<close>
  "createVideoSegments num fuel captions options =
     build_segments fuel
       (\<lambda>segmentId actualStart actualEnd.
          (Some (generateAudioUrl num segmentId actualStart actualEnd),
           Some (generateVideoUrl num segmentId actualStart actualEnd)))
       captions options"

section \<open>Merging close segments\<close>

text \<open>
  The \<^verbatim>\<open>for\<close> loop of \<^verbatim>\<open>mergeAdjacentSegments\<close>: \<open>current\<close> is the accumulator,
  \<open>merged\<close> the list flushed so far.
\<close>

fun merge_loop :: "VideoSegment \<Rightarrow> VideoSegment list \<Rightarrow> VideoSegment list \<Rightarrow> VideoSegment list" where
  "merge_loop current [] merged = merged @ [current]"
| "merge_loop current (next # rest) merged =
     (if startTime next - endTime current \<le> 2
      then merge_loop
             (current\<lparr>endTime := endTime next,
                      text' := trim (collapse_ws (text' current @ '' '' @ text' next))\<rparr>)
             rest merged
      else merge_loop next rest (merged @ [current]))"

definition mergeAdjacentSegments :: "VideoSegment list \<Rightarrow> VideoSegment list" where
  "mergeAdjacentSegments segments =
     (if length segments \<le> 1 then segments
      else merge_loop (hd segments) (tl segments) [])"

section \<open>Quality assessment and repair (front end)\<close>

function strip_tags :: "string \<Rightarrow> string" where
  \<comment> \<open>\<^verbatim>\<open>.replace(/<[^>]*>/g, '')\<close>: from a \<open><\<close> through the first \<open>>\<close> after it\<close>
  "strip_tags [] = []"
| "strip_tags (c # cs) =
     (if c = CHR ''<'' \<and> CHR ''>'' \<in> set cs
      then strip_tags (tl (dropWhile (\<lambda>x. x \<noteq> CHR ''>'') cs))
      else c # strip_tags cs)"
  by pat_completeness auto
termination
proof (relation "measure length")
  show "wf (measure length)" by simp
next
  fix c :: char and cs :: string
  have "length (tl (dropWhile (\<lambda>x. x \<noteq> CHR ''>'') cs)) \<le> length cs"
    using length_dropWhile_le [of "\<lambda>x. x \<noteq> CHR ''>''" cs] by simp
  then show "(tl (dropWhile (\<lambda>x. x \<noteq> CHR ''>'') cs), c # cs) \<in> measure length"
    by simp
next
  fix c :: char and cs :: string
  show "(cs, c # cs) \<in> measure length" by simp
qed

definition bracket_rest :: "string \<Rightarrow> string" where
  \<comment> \<open>where the lazy \<^verbatim>\<open>.*?\<close> stops after a \<open>[\<close>: at the first \<open>]\<close> or line terminator\<close>
  "bracket_rest cs = dropWhile (\<lambda>x. x \<noteq> CHR '']'' \<and> \<not> is_line_terminator x) cs"

function strip_brackets :: "string \<Rightarrow> string" where
  \<comment> \<open>\<^verbatim>\<open>.replace(/\[.*?\]/g, '')\<close>: from a \<open>[\<close> through the first \<open>]\<close> after it, when no
      line terminator stands between the two\<close>
  "strip_brackets [] = []"
| "strip_brackets (c # cs) =
     (if c = CHR ''['' \<and> bracket_rest cs \<noteq> [] \<and> hd (bracket_rest cs) = CHR '']''
      then strip_brackets (tl (bracket_rest cs))
      else c # strip_brackets cs)"
  by pat_completeness auto
termination
proof (relation "measure length")
  show "wf (measure length)" by simp
next
  fix c :: char and cs :: string
  have "length (tl (bracket_rest cs)) \<le> length cs"
    unfolding bracket_rest_def
    using length_dropWhile_le [of "\<lambda>x. x \<noteq> CHR '']'' \<and> \<not> is_line_terminator x" cs] by simp
  then show "(tl (bracket_rest cs), c # cs) \<in> measure length"
    by simp
next
  fix c :: char and cs :: string
  show "(cs, c # cs) \<in> measure length" by simp
qed

definition cleanText :: "string \<Rightarrow> string" where
  "cleanText t = trim (collapse_ws (strip_brackets (strip_tags t)))"

definition is_formatting :: "char \<Rightarrow> bool" where
  \<comment> \<open>the class \<^verbatim>\<open>[{}[\]()<>]\<close>\<close>
  "is_formatting c =
     (c \<in> set [CHR ''{'', CHR ''}'', CHR ''['', CHR '']'', CHR ''('', CHR '')'', CHR ''<'', CHR ''>''])"

record SegmentQuality =
  score :: real
  issues :: "string list"
  suggestions :: "string list"

definition note_issue :: "string \<Rightarrow> string list \<Rightarrow> real \<Rightarrow> SegmentQuality \<Rightarrow> SegmentQuality" where
  \<comment> \<open>one \<^verbatim>\<open>issues.push(..); suggestions.push(..); score -= d\<close> block\<close>
  "note_issue issue sugg d q =
     q\<lparr>score := score q - d, issues := issues q @ [issue], suggestions := suggestions q @ sugg\<rparr>"

definition assessSegmentQuality :: "VideoSegment \<Rightarrow> SegmentQuality" where
  "assessSegmentQuality segment =
     (let q0 = \<lparr>score = 1, issues = [], suggestions = []\<rparr>;
          duration = endTime segment - startTime segment;
          q1 = (if duration < 3 then note_issue ''Segment too short'' [] 0.2 q0
                else if duration > 15
                then note_issue ''Segment too long''
                       [''Consider splitting into smaller segments''] 0.1 q0
                else q0);
          wc = wordCount (text' segment);
          q2 = (if wc < 3 then note_issue ''Text too short'' [] 0.3 q1
                else if wc > 25
                then note_issue ''Text too long''
                       [''Consider splitting at sentence boundaries''] 0.1 q1
                else q1);
          q3 = (if translation segment = None \<or> translation segment = Some []
                then note_issue ''Missing translation'' [''Add English translation''] 0.2 q2
                else q2);
          q4 = (if list_ex is_formatting (text' segment)
                then note_issue ''Contains formatting characters''
                       [''Clean up text formatting''] 0.1 q3
                else q3)
      in q4\<lparr>score := max 0 (score q4)\<rparr>)"

definition optimizeSegment :: "VideoSegment \<Rightarrow> VideoSegment" where
  \<comment> \<open>the callback that \<^verbatim>\<open>optimizeSegments\<close> maps over the list\<close>
  "optimizeSegment segment =
     (let quality = assessSegmentQuality segment in
      if score quality \<ge> 0.8 then segment
      else
        (let improved = segment;
             improved = (if ''Contains formatting characters'' \<in> set (issues quality)
                         then improved\<lparr>text' := cleanText (text' segment)\<rparr> else improved);
             improved = (if ''Missing translation'' \<in> set (issues quality)
                         then improved\<lparr>translation := Some ''[Translation needed]''\<rparr>
                         else improved)
         in improved))"

definition optimizeSegments :: "VideoSegment list \<Rightarrow> VideoSegment list" where
  "optimizeSegments segments = map optimizeSegment segments"

section \<open>Caption parsing (back end)\<close>

text \<open>More of the host: literal search and replacement, splitting, \<^verbatim>\<open>parseInt\<close>.\<close>

definition starts_with :: "string \<Rightarrow> string \<Rightarrow> bool" where
  "starts_with lit s = (take (length lit) s = lit)"

fun includes_str :: "string \<Rightarrow> string \<Rightarrow> bool" where
  \<comment> \<open>\<^verbatim>\<open>s.includes(lit)\<close>\<close>
  "includes_str lit [] = (lit = [])"
| "includes_str lit (c # cs) = (starts_with lit (c # cs) \<or> includes_str lit cs)"

text \<open>
  \<^verbatim>\<open>s.replace(/lit/g, rep)\<close> for a literal \<open>lit\<close>. A match is skipped by counting
  its characters down in \<open>skip\<close>, so that the recursion is on the string.
\<close>

fun replace_from :: "string \<Rightarrow> string \<Rightarrow> nat \<Rightarrow> string \<Rightarrow> string" where
  "replace_from lit rep skip [] = []"
| "replace_from lit rep (Suc skip) (c # cs) = replace_from lit rep skip cs"
| "replace_from lit rep 0 (c # cs) =
     (if lit \<noteq> [] \<and> starts_with lit (c # cs)
      then rep @ replace_from lit rep (length lit - 1) cs
      else c # replace_from lit rep 0 cs)"

definition replace_all :: "string \<Rightarrow> string \<Rightarrow> string \<Rightarrow> string" where
  "replace_all lit rep s = replace_from lit rep 0 s"

fun split_each :: "(char \<Rightarrow> bool) \<Rightarrow> string \<Rightarrow> string list" where
  \<comment> \<open>\<^verbatim>\<open>s.split(sep)\<close> for a separator of one character (or a class of them)\<close>
  "split_each p [] = [[]]"
| "split_each p (c # cs) =
     (if p c then [] # split_each p cs
      else (case split_each p cs of [] \<Rightarrow> [[c]] | h # t \<Rightarrow> (c # h) # t))"

definition nth_opt :: "'a list \<Rightarrow> nat \<Rightarrow> 'a option" where
  \<comment> \<open>\<^verbatim>\<open>xs[i]\<close>, \<open>None\<close> for \<^verbatim>\<open>undefined\<close>\<close>
  "nth_opt xs i = (if i < length xs then Some (xs ! i) else None)"

definition or_zero :: "string option \<Rightarrow> string" where
  \<comment> \<open>\<^verbatim>\<open>x || '0'\<close>\<close>
  "or_zero x = (case x of None \<Rightarrow> ''0'' | Some s \<Rightarrow> (if s = [] then ''0'' else s))"

definition digit_value :: "char \<Rightarrow> nat option" where
  "digit_value c =
     (let n = of_char c :: nat in
      if 48 \<le> n \<and> n \<le> 57 then Some (n - 48)
      else if 97 \<le> n \<and> n \<le> 102 then Some (n - 87)
      else if 65 \<le> n \<and> n \<le> 70 then Some (n - 55)
      else None)"

definition is_digit :: "nat \<Rightarrow> char \<Rightarrow> bool" where
  "is_digit radix c = (case digit_value c of None \<Rightarrow> False | Some d \<Rightarrow> d < radix)"

definition digits_value :: "nat \<Rightarrow> string \<Rightarrow> nat" where
  "digits_value radix ds = foldl (\<lambda>acc c. acc * radix + the (digit_value c)) 0 ds"

definition parseInt :: "string \<Rightarrow> int option" where
  \<comment> \<open>\<^verbatim>\<open>parseInt(s)\<close> with no radix: leading white space, a sign, \<^verbatim>\<open>0x\<close> for base 16,
      then the longest run of digits; \<open>None\<close> is NaN\<close>
  "parseInt s =
     (let s1 = dropWhile is_space s;
          negative = starts_with ''-'' s1;
          s2 = (if starts_with ''-'' s1 \<or> starts_with ''+'' s1 then tl s1 else s1);
          hex = (starts_with ''0x'' s2 \<or> starts_with ''0X'' s2);
          radix = (if hex then 16 else 10);
          s3 = (if hex then drop 2 s2 else s2);
          ds = takeWhile (is_digit radix) s3
      in if ds = [] then None
         else Some (if negative then - int (digits_value radix ds)
                    else int (digits_value radix ds)))"

definition replace_first_char :: "char \<Rightarrow> string \<Rightarrow> string" where
  \<comment> \<open>\<^verbatim>\<open>s.replace('c', '')\<close>: the first occurrence only\<close>
  "replace_first_char c s = takeWhile (\<lambda>x. x \<noteq> c) s @ tl (dropWhile (\<lambda>x. x \<noteq> c) s)"

definition parseTimeToSeconds :: "(string \<Rightarrow> real option) \<Rightarrow> string \<Rightarrow> real option" where
  \<comment> \<open>\<open>parseFloat\<close> is the host's; \<open>None\<close> is NaN, in its result and in this one\<close>
  "parseTimeToSeconds parseFloat timeString =
     (if includes_str '':'' timeString then
        (let parts = split_each (\<lambda>c. c = CHR '':'') timeString;
             hours = parseInt (or_zero (nth_opt parts 0));
             minutes = parseInt (or_zero (nth_opt parts 1));
             secondsParts =
               (case nth_opt parts 2 of
                  None \<Rightarrow> [''0'']
                | Some p \<Rightarrow> if p = [] then [''0'']
                            else split_each (\<lambda>c. c = CHR '','' \<or> c = CHR ''.'') p);
             seconds = parseInt (or_zero (nth_opt secondsParts 0));
             milliseconds = parseInt (or_zero (nth_opt secondsParts 1))
         in case (hours, minutes, seconds, milliseconds) of
              (Some h, Some m, Some s, Some ms) \<Rightarrow>
                Some (real_of_int h * 3600 + real_of_int m * 60 + real_of_int s
                      + real_of_int ms / 1000)
            | _ \<Rightarrow> None)
      else if includes_str ''s'' timeString then parseFloat (replace_first_char (CHR ''s'') timeString)
      else parseFloat timeString)"

definition CaptionProcessor_cleanText :: "string \<Rightarrow> string" where
  \<comment> \<open>the back end's \<^verbatim>\<open>cleanText\<close>, which also decodes five entities\<close>
  "CaptionProcessor_cleanText t =
     trim (collapse_ws (strip_brackets
       (replace_all ''&#39;'' [CHR 0x27]
         (replace_all ''&quot;'' [CHR 0x22]
           (replace_all ''&gt;'' ''>''
             (replace_all ''&lt;'' ''<''
               (replace_all ''&amp;'' ''&'' (strip_tags t))))))))"

text \<open>
  The paragraph pattern of \<^verbatim>\<open>parseTTML\<close>,
  \<^verbatim>\<open><p[^>]*begin="([^"]*)"[^>]*end="([^"]*)"[^>]*>(.*?)<\/p>\<close>,
  matched at the start of a string as a backtracking matcher does: a greedy \<^verbatim>\<open>[^>]*\<close>
  before a literal offers its longest run first and then each shorter one; a capture
  \<^verbatim>\<open>[^"]*\<close> ends at the first quote; the lazy \<^verbatim>\<open>.*?\<close> ends at the first \<^verbatim>\<open></p>\<close>
  and crosses no line terminator. The result is the three captures and the length of the
  match.
\<close>

definition greedy_rests :: "(char \<Rightarrow> bool) \<Rightarrow> string \<Rightarrow> string list" where
  \<comment> \<open>what is left after a greedy run of the class, longest run first\<close>
  "greedy_rests p s = map (\<lambda>k. drop k s) (rev [0 ..< Suc (length (takeWhile p s))])"

fun first_some :: "('a \<Rightarrow> 'b option) \<Rightarrow> 'a list \<Rightarrow> 'b option" where
  "first_some f [] = None"
| "first_some f (x # xs) = (case f x of Some y \<Rightarrow> Some y | None \<Rightarrow> first_some f xs)"

definition after_lit :: "string \<Rightarrow> string \<Rightarrow> string option" where
  "after_lit lit s = (if starts_with lit s then Some (drop (length lit) s) else None)"

definition upto_char :: "char \<Rightarrow> string \<Rightarrow> (string \<times> string) option" where
  \<comment> \<open>a greedy \<^verbatim>\<open>[^c]*\<close> and then \<open>c\<close>: the text before the first \<open>c\<close>, and what follows it\<close>
  "upto_char c s =
     (if c \<in> set s
      then Some (takeWhile (\<lambda>x. x \<noteq> c) s, tl (dropWhile (\<lambda>x. x \<noteq> c) s))
      else None)"

fun lazy_upto :: "string \<Rightarrow> string \<Rightarrow> (string \<times> string) option" where
  \<comment> \<open>a lazy \<^verbatim>\<open>.*?\<close> and then the literal\<close>
  "lazy_upto lit [] = (if lit = [] then Some ([], []) else None)"
| "lazy_upto lit (c # cs) =
     (if starts_with lit (c # cs) then Some ([], drop (length lit) (c # cs))
      else if is_line_terminator c then None
      else (case lazy_upto lit cs of
              None \<Rightarrow> None
            | Some (captured, rest) \<Rightarrow> Some (c # captured, rest)))"

definition paragraph_tail :: "string \<Rightarrow> string \<Rightarrow> (string \<times> string \<times> string \<times> string) option" where
  \<comment> \<open>from \<^verbatim>\<open>end="\<close> on, the first capture known\<close>
  "paragraph_tail begin r =
     (case after_lit ''end='' r of
        None \<Rightarrow> None
      | Some r' \<Rightarrow>
          (case after_lit [CHR 0x22] r' of
             None \<Rightarrow> None
           | Some r3 \<Rightarrow>
               (case upto_char (CHR 0x22) r3 of
                  None \<Rightarrow> None
                | Some (ending, r4) \<Rightarrow>
                    (case upto_char (CHR ''>'') r4 of
                       None \<Rightarrow> None
                     | Some (attrs, r5) \<Rightarrow>
                         (case lazy_upto ''</p>'' r5 of
                            None \<Rightarrow> None
                          | Some (body, rest) \<Rightarrow> Some (begin, ending, body, rest))))))"

definition paragraph_head :: "string \<Rightarrow> (string \<times> string \<times> string \<times> string) option" where
  \<comment> \<open>from \<^verbatim>\<open>begin="\<close> on\<close>
  "paragraph_head r =
     (case after_lit ''begin='' r of
        None \<Rightarrow> None
      | Some r' \<Rightarrow>
          (case after_lit [CHR 0x22] r' of
             None \<Rightarrow> None
           | Some r1 \<Rightarrow>
               (case upto_char (CHR 0x22) r1 of
                  None \<Rightarrow> None
                | Some (begin, r2) \<Rightarrow>
                    first_some (paragraph_tail begin)
                      (greedy_rests (\<lambda>x. x \<noteq> CHR ''>'') r2))))"

definition match_paragraph :: "string \<Rightarrow> ((string \<times> string \<times> string) \<times> nat) option" where
  "match_paragraph s =
     (case after_lit ''<p'' s of
        None \<Rightarrow> None
      | Some r0 \<Rightarrow>
          (case first_some paragraph_head (greedy_rests (\<lambda>x. x \<noteq> CHR ''>'') r0) of
             None \<Rightarrow> None
           | Some (begin, ending, body, rest) \<Rightarrow>
               Some ((begin, ending, body), length s - length rest)))"

definition push_valid :: "real option \<Rightarrow> real option \<Rightarrow> string \<Rightarrow> CaptionData list" where
  \<comment> \<open>\<^verbatim>\<open>if (text && start >= 0 && end > start) captions.push({ start, end, text })\<close>:
      the captions pushed; every comparison with NaN is false\<close>
  "push_valid t0 t1 text =
     (case (t0, t1) of
        (Some s, Some e) \<Rightarrow>
          (if text \<noteq> [] \<and> s \<ge> 0 \<and> e > s then [\<lparr>start = s, end' = e, text_c = text\<rparr>]
           else [])
      | _ \<Rightarrow> [])"

text \<open>
  The \<^verbatim>\<open>while ((match = pRegex.exec(..)) !== null)\<close> loop: the search resumes where
  the last match ended, which \<open>skip\<close> counts down to.
\<close>

fun ttml_loop :: "(string \<Rightarrow> real option) \<Rightarrow> nat \<Rightarrow> string \<Rightarrow> CaptionData list" where
  "ttml_loop parseFloat skip [] = []"
| "ttml_loop parseFloat (Suc skip) (c # cs) = ttml_loop parseFloat skip cs"
| "ttml_loop parseFloat 0 (c # cs) =
     (case match_paragraph (c # cs) of
        None \<Rightarrow> ttml_loop parseFloat 0 cs
      | Some ((m1, m2, m3), n) \<Rightarrow>
          push_valid (parseTimeToSeconds parseFloat m1) (parseTimeToSeconds parseFloat m2)
            (CaptionProcessor_cleanText m3)
          @ ttml_loop parseFloat (n - 1) cs)"

definition parseTTML :: "(string \<Rightarrow> real option) \<Rightarrow> string \<Rightarrow> CaptionData list" where
  "parseTTML parseFloat ttmlContent = ttml_loop parseFloat 0 ttmlContent"

text \<open>
  \<^verbatim>\<open>s.split(/\n\s*\n/)\<close>: a separator starts at a line feed and runs through the last
  line feed of the white space after it; \<open>separator_rest\<close> is how many characters of
  that white space belong to it (none when it holds no line feed).
\<close>

definition separator_rest :: "string \<Rightarrow> nat" where
  "separator_rest cs =
     length (dropWhile (\<lambda>x. x \<noteq> CHR 0x0A) (rev (takeWhile is_space cs)))"

fun blocks_from :: "nat \<Rightarrow> string \<Rightarrow> string \<Rightarrow> string list" where
  \<comment> \<open>\<open>piece\<close> is the block being read, reversed\<close>
  "blocks_from skip piece [] = [rev piece]"
| "blocks_from (Suc skip) piece (c # cs) = blocks_from skip piece cs"
| "blocks_from 0 piece (c # cs) =
     (if c = CHR 0x0A \<and> separator_rest cs > 0
      then rev piece # blocks_from (separator_rest cs) [] cs
      else blocks_from 0 (c # piece) cs)"

definition split_blocks :: "string \<Rightarrow> string list" where
  "split_blocks s = blocks_from 0 [] s"

definition is_stamp :: "string \<Rightarrow> bool" where
  \<comment> \<open>\<^verbatim>\<open>\d{2}:\d{2}:\d{2},\d{3}\<close> at the start of the string\<close>
  "is_stamp s =
     (length s \<ge> 12 \<and>
      list_all (is_digit 10) (map (\<lambda>i. s ! i) [0, 1, 3, 4, 6, 7, 9, 10, 11]) \<and>
      s ! 2 = CHR '':'' \<and> s ! 5 = CHR '':'' \<and> s ! 8 = CHR '','')"

definition match_times_here :: "string \<Rightarrow> (string \<times> string) option" where
  \<comment> \<open>\<^verbatim>\<open>(stamp)\s*-->\s*(stamp)\<close> at the start of the string\<close>
  "match_times_here s =
     (if is_stamp s then
        (case after_lit ''-->'' (dropWhile is_space (drop 12 s)) of
           None \<Rightarrow> None
         | Some r \<Rightarrow>
             (if is_stamp (dropWhile is_space r)
              then Some (take 12 s, take 12 (dropWhile is_space r)) else None))
      else None)"

fun match_times :: "string \<Rightarrow> (string \<times> string) option" where
  \<comment> \<open>\<^verbatim>\<open>line.match(..)\<close>: the leftmost match\<close>
  "match_times [] = None"
| "match_times (c # cs) =
     (case match_times_here (c # cs) of Some m \<Rightarrow> Some m | None \<Rightarrow> match_times cs)"

definition parse_block :: "(string \<Rightarrow> real option) \<Rightarrow> string \<Rightarrow> CaptionData list" where
  \<comment> \<open>the body of the \<^verbatim>\<open>for (const block of blocks)\<close> loop: the captions it pushes\<close>
  "parse_block parseFloat block =
     (let lines = split_each (\<lambda>c. c = CHR 0x0A) (trim block) in
      if length lines \<ge> 3 then
        (case match_times (lines ! 1) of
           None \<Rightarrow> []
         | Some (m1, m2) \<Rightarrow>
             push_valid (parseTimeToSeconds parseFloat m1) (parseTimeToSeconds parseFloat m2)
               (trim (join_sp (drop 2 lines))))
      else [])"

definition parseSRT :: "(string \<Rightarrow> real option) \<Rightarrow> string \<Rightarrow> CaptionData list" where
  "parseSRT parseFloat srtContent = concat (map (parse_block parseFloat) (split_blocks srtContent))"

fun plain_loop :: "string list \<Rightarrow> real \<Rightarrow> CaptionData list" where
  "plain_loop [] currentTime = []"
| "plain_loop (sentence # rest) currentTime =
     (if trim sentence \<noteq> []
      then \<lparr>start = currentTime, end' = currentTime + 3, text_c = trim sentence\<rparr>
           # plain_loop rest (currentTime + 3)
      else plain_loop rest currentTime)"

definition parsePlainText :: "string \<Rightarrow> CaptionData list" where
  "parsePlainText text =
     plain_loop (filter (\<lambda>s. trim s \<noteq> []) (split_runs is_sentence_end text)) 0"

definition parseCaptions :: "(string \<Rightarrow> real option) \<Rightarrow> string \<Rightarrow> CaptionData list" where
  "parseCaptions parseFloat captionText =
     (if includes_str ''<p'' captionText \<or> includes_str ''ttml'' captionText
      then parseTTML parseFloat captionText
      else if includes_str ''-->'' captionText then parseSRT parseFloat captionText
      else parsePlainText captionText)"

section \<open>The progress store\<close>

datatype Status = pending | processing | completed | failed

record ProcessingProgress =
  videoId :: string
  status :: Status
  progress :: nat
  currentSegment :: "nat option"
  totalSegments :: "nat option"
  error' :: "string option"
  startTime_p :: "nat option"
  endTime_p :: "nat option"

text \<open>
  \<^verbatim>\<open>progressMap\<close> is a \<^verbatim>\<open>Map\<close>, which iterates in the order its keys were first set:
  an association list, where \<^verbatim>\<open>set\<close> replaces the value of a key in place and appends
  a new key (\<^const>\<open>AList.update\<close>), and \<^verbatim>\<open>get\<close> is \<^const>\<open>map_of\<close>.
\<close>

type_synonym ProgressMap = "(string \<times> ProcessingProgress) list"

definition getProgress :: "ProgressMap \<Rightarrow> string \<Rightarrow> ProcessingProgress option" where
  \<comment> \<open>the first entry, in iteration order, whose record is of this video\<close>
  "getProgress progressMap vid =
     (case filter (\<lambda>(key, p). videoId p = vid) progressMap of
        [] \<Rightarrow> None
      | (key, p) # rest \<Rightarrow> Some p)"

definition updateProgress ::
  "string \<Rightarrow> (ProcessingProgress \<Rightarrow> ProcessingProgress) \<Rightarrow> ProgressMap \<Rightarrow> ProgressMap" where
  \<comment> \<open>\<open>updates\<close> is the effect of the spread \<^verbatim>\<open>{ ...current, ...updates }\<close> on \<open>current\<close>\<close>
  "updateProgress progressId updates progressMap =
     (case map_of progressMap progressId of
        Some current \<Rightarrow> AList.update progressId (updates current) progressMap
      | None \<Rightarrow> progressMap)"

section \<open>The extraction orchestrator\<close>

text \<open>
  What lies outside the program is passed in, and acts on a world \<open>'w\<close>:
  \<^item> \<open>tool\<close> is the \<^verbatim>\<open>try\<close> block of \<^verbatim>\<open>processSegment\<close> (the three calls of the
    external extraction tool for one segment): \<open>None\<close> when both clips were produced,
    \<open>Some errorMessage\<close> when one of the calls threw;
  \<^item> \<open>mkdirs\<close> is the pair of \<^verbatim>\<open>fs.mkdir\<close> calls, \<open>Some\<close> the message of a failure;
  \<^item> \<open>now\<close> reads the clock (\<^verbatim>\<open>Date.now()\<close>, \<^verbatim>\<open>new Date()\<close>) in milliseconds.
  The trace holds every run of the tool for a segment, with its \<^verbatim>\<open>retryCount\<close>, and
  every wait of \<^verbatim>\<open>setTimeout\<close>, in milliseconds.
\<close>

record 'w Extraction =
  tool :: "string \<Rightarrow> VideoSegment \<Rightarrow> 'w \<Rightarrow> string option \<times> 'w"
  mkdirs :: "'w \<Rightarrow> string option \<times> 'w"
  now :: "'w \<Rightarrow> nat"

datatype event = Attempt string nat | Sleep nat

definition maxRetries :: nat where
  "maxRetries = 3"

function processSegment ::
  "'w Extraction \<Rightarrow> string \<Rightarrow> VideoSegment \<Rightarrow> nat \<Rightarrow> 'w \<times> event list \<Rightarrow>
   (string + unit) \<times> 'w \<times> event list" where
  "processSegment ext vid segment retryCount (w, trace) =
     (case tool ext vid segment w of
        (None, w') \<Rightarrow> (Inr (), w', trace @ [Attempt (id' segment) retryCount])
      | (Some errorMessage, w') \<Rightarrow>
          (if retryCount < maxRetries
           then processSegment ext vid segment (retryCount + 1)
                  (w', trace @ [Attempt (id' segment) retryCount, Sleep (2000 * (retryCount + 1))])
           else (Inl (''yt-dlp processing error: '' @ errorMessage), w',
                 trace @ [Attempt (id' segment) retryCount])))"
  by pat_completeness auto
termination
  by (relation "measure (\<lambda>(ext, vid, segment, retryCount, st). maxRetries - retryCount)") auto

declare processSegment.simps [simp del]

definition round_percent :: "nat \<Rightarrow> nat \<Rightarrow> nat" where
  \<comment> \<open>\<^verbatim>\<open>Math.round((i / n) * 100)\<close>, halves rounded up, for \<open>n > 0\<close>\<close>
  "round_percent i n = (200 * i + n) div (2 * n)"

text \<open>The \<^verbatim>\<open>for\<close> loop of \<^verbatim>\<open>processSegments\<close>; a thrown error leaves the loop.\<close>

fun segments_loop ::
  "'w Extraction \<Rightarrow> string \<Rightarrow> string \<Rightarrow> nat \<Rightarrow> VideoSegment list \<Rightarrow> nat \<Rightarrow>
   ProgressMap \<times> 'w \<times> event list \<Rightarrow> (string + unit) \<times> ProgressMap \<times> 'w \<times> event list" where
  "segments_loop ext vid progressId n [] i st = (Inr (), st)"
| "segments_loop ext vid progressId n (segment # rest) i (progressMap, w, trace) =
     (let progressMap' =
            updateProgress progressId
              (\<lambda>p. p\<lparr>currentSegment := Some (i + 1), progress := round_percent i n\<rparr>)
              progressMap
      in case processSegment ext vid segment 0 (w, trace) of
           (Inl err, w', trace') \<Rightarrow> (Inl err, progressMap', w', trace')
         | (Inr u, w', trace') \<Rightarrow>
             segments_loop ext vid progressId n rest (i + 1) (progressMap', w', trace'))"

definition progress_key :: "string \<Rightarrow> nat \<Rightarrow> string" where
  \<comment> \<open>the template \<^verbatim>\<open>${videoId}_${Date.now()}\<close>\<close>
  "progress_key vid t = vid @ ''_'' @ nat_to_string t"

definition processSegments ::
  "'w Extraction \<Rightarrow> string \<Rightarrow> VideoSegment list \<Rightarrow> ProgressMap \<times> 'w \<times> event list \<Rightarrow>
   ProgressMap \<times> 'w \<times> event list" where
  "processSegments ext vid segments st =
     (case st of (progressMap, w, trace) \<Rightarrow>
        (let progressId = progress_key vid (now ext w);
             progressMap1 =
               AList.update progressId
                 \<lparr>videoId = vid, status = pending, progress = 0, currentSegment = None,
                  totalSegments = Some (length segments), error' = None,
                  startTime_p = Some (now ext w), endTime_p = None\<rparr>
                 progressMap
         in case mkdirs ext w of
              (Some err, w1) \<Rightarrow>
                (updateProgress progressId (\<lambda>p. p\<lparr>status := failed, error' := Some err\<rparr>)
                   progressMap1, w1, trace)
            | (None, w1) \<Rightarrow>
                (case segments_loop ext vid progressId (length segments) segments 0
                        (updateProgress progressId (\<lambda>p. p\<lparr>status := processing\<rparr>)
                           progressMap1, w1, trace) of
                   (Inl err, progressMap3, w3, trace3) \<Rightarrow>
                     (updateProgress progressId
                        (\<lambda>p. p\<lparr>status := failed, error' := Some err\<rparr>) progressMap3,
                      w3, trace3)
                 | (Inr u, progressMap3, w3, trace3) \<Rightarrow>
                     (updateProgress progressId
                        (\<lambda>p. p\<lparr>status := completed, progress := 100,
                                endTime_p := Some (now ext w3)\<rparr>) progressMap3,
                      w3, trace3))))"

section \<open>The pipeline facade\<close>

definition id_char :: "char \<Rightarrow> bool" where
  \<comment> \<open>the class \<^verbatim>\<open>[^&\n?#]\<close>\<close>
  "id_char c = (c \<notin> set [CHR ''&'', CHR 0x0A, CHR ''?'', CHR ''#''])"

definition id_after :: "string \<Rightarrow> string \<Rightarrow> string option" where
  \<comment> \<open>the literal and then the capture \<^verbatim>\<open>([^&\n?#]+)\<close>, at the start of the string\<close>
  "id_after lit s =
     (case after_lit lit s of
        None \<Rightarrow> None
      | Some r \<Rightarrow> if takeWhile id_char r = [] then None else Some (takeWhile id_char r))"

fun leftmost :: "(string \<Rightarrow> 'a option) \<Rightarrow> string \<Rightarrow> 'a option" where
  \<comment> \<open>\<^verbatim>\<open>url.match(pattern)\<close>: the first position where the pattern matches\<close>
  "leftmost f [] = f []"
| "leftmost f (c # cs) = (case f (c # cs) of Some m \<Rightarrow> Some m | None \<Rightarrow> leftmost f cs)"

definition watch_pattern :: "string \<Rightarrow> string option" where
  \<comment> \<open>\<^verbatim>\<open>(?:youtube\.com\/watch\?v=|youtu\.be\/|youtube\.com\/embed\/)([^&\n?#]+)\<close>\<close>
  "watch_pattern s =
     first_some (\<lambda>lit. id_after lit s)
       [''youtube.com/watch?v='', ''youtu.be/'', ''youtube.com/embed/'']"

definition v_pattern :: "string \<Rightarrow> string option" where
  \<comment> \<open>\<^verbatim>\<open>youtube\.com\/v\/([^&\n?#]+)\<close>\<close>
  "v_pattern s = id_after ''youtube.com/v/'' s"

definition query_pattern :: "string \<Rightarrow> string option" where
  \<comment> \<open>\<^verbatim>\<open>youtube\.com\/watch\?.*v=([^&\n?#]+)\<close>, the \<^verbatim>\<open>.*\<close> greedy\<close>
  "query_pattern s =
     (case after_lit ''youtube.com/watch?'' s of
        None \<Rightarrow> None
      | Some r \<Rightarrow> first_some (id_after ''v='') (greedy_rests (\<lambda>c. \<not> is_line_terminator c) r))"

definition extractVideoId :: "string \<Rightarrow> string option" where
  "extractVideoId url =
     first_some (\<lambda>pattern. leftmost pattern url) [watch_pattern, v_pattern, query_pattern]"

record VideoProcessingRequest =
  videoUrl_r :: string
  segmentDuration_r :: "real option"
  includeTranslation :: "bool option"

record VideoMetadata =
  title :: string
  description :: string
  duration :: real
  thumbnail :: string
  publishedAt :: string
  channelTitle :: string

record ResponseData =
  data_videoId :: string
  data_title :: string
  data_duration :: real
  data_segments :: "VideoSegment list"
  data_captions :: string
  data_thumbnail :: string

record VideoProcessingResponse =
  success :: bool
  data :: "ResponseData option"
  error_r :: "string option"

text \<open>
  The collaborators of \<^verbatim>\<open>processVideo\<close>: the two calls of the provider, the
  translator (\<open>Inl\<close> is the message of a thrown error), the extraction, and of the host
  \<^verbatim>\<open>parseFloat\<close>, the conversion of a number inside a template literal, and
  the environment variable \<^verbatim>\<open>BACKEND_URL\<close>.
\<close>

record 'w Services =
  getVideoMetadata :: "string \<Rightarrow> 'w \<Rightarrow> (string + VideoMetadata) \<times> 'w"
  extractCaptions :: "string \<Rightarrow> string \<Rightarrow> 'w \<Rightarrow> (string + string) \<times> 'w"
  translate :: "string \<Rightarrow> string \<Rightarrow> string \<Rightarrow> 'w \<Rightarrow> (string + string) \<times> 'w"
  extraction :: "'w Extraction"
  parseFloat :: "string \<Rightarrow> real option"
  numToString :: "real \<Rightarrow> string"
  BACKEND_URL :: "string option"

fun translate_all :: "'w Services \<Rightarrow> VideoSegment list \<Rightarrow> 'w \<Rightarrow> VideoSegment list \<times> 'w" where
  \<comment> \<open>the \<^verbatim>\<open>for (const segment of segments)\<close> loop with its \<^verbatim>\<open>try\<close> and \<^verbatim>\<open>catch\<close>\<close>
  "translate_all srv [] w = ([], w)"
| "translate_all srv (segment # rest) w =
     (case translate srv (text' segment) ''it'' ''en'' w of
        (Inr t, w') \<Rightarrow>
          (case translate_all srv rest w' of
             (rest', w'') \<Rightarrow> (segment\<lparr>translation := Some t\<rparr> # rest', w''))
      | (Inl err, w') \<Rightarrow>
          (case translate_all srv rest w' of
             (rest', w'') \<Rightarrow>
               (segment\<lparr>translation := Some ''[Translation failed]''\<rparr> # rest', w'')))"

definition artifact_urls :: "'w Services \<Rightarrow> string \<Rightarrow> VideoSegment \<Rightarrow> VideoSegment" where
  "artifact_urls srv vid segment =
     (let baseUrl = (case BACKEND_URL srv of
                       None \<Rightarrow> ''http://localhost:3001''
                     | Some u \<Rightarrow> if u = [] then ''http://localhost:3001'' else u);
          name = vid @ ''_'' @ numToString srv (startTime segment) @ ''_''
                   @ numToString srv (endTime segment)
      in segment\<lparr>audioUrl := Some (baseUrl @ ''/processed/audio/'' @ name @ ''.mp3''),
                 videoUrl := Some (baseUrl @ ''/processed/video/'' @ name @ ''.mp4'')\<rparr>)"

definition failure :: "string \<Rightarrow> VideoProcessingResponse" where
  \<comment> \<open>what the \<^verbatim>\<open>catch\<close> of \<^verbatim>\<open>processVideo\<close> returns\<close>
  "failure message = \<lparr>success = False, data = None, error_r = Some message\<rparr>"

definition processVideo ::
  "'w Services \<Rightarrow> nat \<Rightarrow> VideoProcessingRequest \<Rightarrow> ProgressMap \<times> 'w \<times> event list \<Rightarrow>
   (VideoProcessingResponse \<times> ProgressMap \<times> 'w \<times> event list) option" where
  \<comment> \<open>\<open>None\<close>: \<^verbatim>\<open>createSegments\<close> has not returned within \<open>fuel\<close> iterations\<close>
  "processVideo srv fuel request st =
     (case st of (progressMap, w, trace) \<Rightarrow>
        (case extractVideoId (videoUrl_r request) of
           None \<Rightarrow> Some (failure ''Invalid YouTube URL'', progressMap, w, trace)
         | Some vid \<Rightarrow>
             (case getVideoMetadata srv vid w of
                (Inl err, w1) \<Rightarrow> Some (failure err, progressMap, w1, trace)
              | (Inr metadata, w1) \<Rightarrow>
                  (case extractCaptions srv vid ''it'' w1 of
                     (Inl err, w2) \<Rightarrow> Some (failure err, progressMap, w2, trace)
                   | (Inr captions, w2) \<Rightarrow>
                       (let captionData = parseCaptions (parseFloat srv) captions in
                        case createSegments fuel captionData
                               (no_options
                                  \<lparr>p_segmentDuration :=
                                     Some (case segmentDuration_r request of
                                             None \<Rightarrow> 8
                                           | Some d \<Rightarrow> if d = 0 then 8 else d),
                                   p_overlap := Some 1\<rparr>) of
                          None \<Rightarrow> None
                        | Some segments \<Rightarrow>
                            (case (if includeTranslation request = Some True
                                   then translate_all srv segments w2 else (segments, w2)) of
                               (segments', w3) \<Rightarrow>
                                 (case processSegments (extraction srv) vid segments'
                                         (progressMap, w3, trace) of
                                    st' \<Rightarrow>
                                      Some (\<lparr>success = True,
                                             data = Some
                                               \<lparr>data_videoId = vid, data_title = title metadata,
                                                data_duration = duration metadata,
                                                data_segments =
                                                  map (artifact_urls srv vid) segments',
                                                data_captions =
                                                  join_sp (map text_c captionData),
                                                data_thumbnail = thumbnail metadata\<rparr>,
                                             error_r = None\<rparr>, st'))))))))"

section \<open>Vocabulary of the statements and the proofs\<close>

fun gapped :: "VideoSegment list \<Rightarrow> bool" where
  \<comment> \<open>no two neighbours are close enough to be merged\<close>
  "gapped [] = True"
| "gapped [x] = True"
| "gapped (x # y # ys) = (\<not> startTime y - endTime x \<le> 2 \<and> gapped (y # ys))"

text \<open>
  The two quantities of one round of the segment loop, as its body computes them: the
  captions that overlap the window opened at \<open>currentTime\<close> (\<^verbatim>\<open>segmentCaptions\<close>), and the
  length \<^verbatim>\<open>actualEnd - actualStart\<close> of the window once clipped to them.
\<close>

definition window_captions ::
  "SegmentationOptions \<Rightarrow> real \<Rightarrow> CaptionData list \<Rightarrow> real \<Rightarrow> CaptionData list" where
  "window_captions opts maxEnd sortedCaptions currentTime =
     filter (\<lambda>caption. start caption < min (currentTime + segmentDuration opts) maxEnd
                        \<and> end' caption > currentTime)
       sortedCaptions"

definition clipped_duration ::
  "SegmentationOptions \<Rightarrow> real \<Rightarrow> CaptionData list \<Rightarrow> real \<Rightarrow> real" where
  "clipped_duration opts maxEnd sortedCaptions currentTime =
     min (min (currentTime + segmentDuration opts) maxEnd)
         (end' (last (window_captions opts maxEnd sortedCaptions currentTime)))
     - max currentTime (start (hd (window_captions opts maxEnd sortedCaptions currentTime)))"

definition attempts_of :: "string \<Rightarrow> event list \<Rightarrow> nat" where
  \<comment> \<open>how often the trace runs the tool on the segment of this id\<close>
  "attempts_of segmentId trace =
     length (filter (\<lambda>e. case e of Attempt i r \<Rightarrow> i = segmentId | Sleep ms \<Rightarrow> False) trace)"

definition give_up :: "string \<Rightarrow> event list" where
  "give_up segmentId =
     [Attempt segmentId 0, Sleep 2000, Attempt segmentId 1, Sleep 4000,
      Attempt segmentId 2, Sleep 6000, Attempt segmentId 3]"





text \<open>
  Shapes of a cleaned text: no \<open>a\<close> with a \<open>b\<close> anywhere after it (for tags and for
  brackets), and white space that is single blanks only.
\<close>

fun no_pair :: "char \<Rightarrow> char \<Rightarrow> string \<Rightarrow> bool" where
  "no_pair a b [] = True"
| "no_pair a b (c # cs) = (\<not> (c = a \<and> b \<in> set cs) \<and> no_pair a b cs)"

fun ws_normal :: "string \<Rightarrow> bool" where
  "ws_normal [] = True"
| "ws_normal [c] = (\<not> is_space c \<or> c = CHR '' '')"
| "ws_normal (c # d # cs) =
     ((\<not> is_space c \<or> (c = CHR '' '' \<and> \<not> is_space d)) \<and> ws_normal (d # cs))"

section \<open>Inputs of the worked examples\<close>

definition C1_captions :: "CaptionData list" where
  "C1_captions =
     [\<lparr>start = 0, end' = 5, text_c = ''Ciao, come stai?''\<rparr>,
      \<lparr>start = 5, end' = 10, text_c = ''Sono molto felice di vederti oggi.''\<rparr>]"

definition C4_captions :: "CaptionData list" where
  \<comment> \<open>the second window, \<open>[7, 9)\<close>, is shorter than the minimum of 3 seconds\<close>
  "C4_captions =
     [\<lparr>start = 0, end' = 5, text_c = ''Parliamo di cibo italiano.''\<rparr>,
      \<lparr>start = 5, end' = 9, text_c = ''Mi piace molto la pasta.''\<rparr>]"

definition C4_segment :: VideoSegment where
  "C4_segment =
     \<lparr>id' = ''1'', startTime = 0, endTime = 8,
      text' = ''Parliamo di cibo italiano. Mi piace molto la pasta.'',
      translation = Some [], audioUrl = Some [], videoUrl = Some []\<rparr>"

definition job_old :: ProcessingProgress where
  \<comment> \<open>a first job for video \<open>abc\<close>, registered at time 1000 and finished\<close>
  "job_old =
     \<lparr>videoId = ''abc'', status = completed, progress = 100, currentSegment = Some 2,
      totalSegments = Some 2, error' = None, startTime_p = Some 1000, endTime_p = Some 1500\<rparr>"

definition job_new :: ProcessingProgress where
  \<comment> \<open>a second job for the same video, registered at time 2000 and still running\<close>
  "job_new =
     \<lparr>videoId = ''abc'', status = pending, progress = 0, currentSegment = None,
      totalSegments = Some 2, error' = None, startTime_p = Some 2000, endTime_p = None\<rparr>"

definition two_jobs :: ProgressMap where
  \<comment> \<open>the store after both registrations and the second job's first two updates\<close>
  "two_jobs =
     updateProgress ''abc_2000'' (\<lambda>p. p\<lparr>currentSegment := Some 1, progress := 0\<rparr>)
       (updateProgress ''abc_2000'' (\<lambda>p. p\<lparr>status := processing\<rparr>)
          (AList.update ''abc_2000'' job_new (AList.update ''abc_1000'' job_old [])))"

definition seg_1 :: VideoSegment where
  "seg_1 =
     \<lparr>id' = ''1'', startTime = 0, endTime = 8,
      text' = ''Ciao, come stai? Sono molto felice di vederti oggi.'',
      translation = Some [], audioUrl = Some [], videoUrl = Some []\<rparr>"

definition seg_2 :: VideoSegment where
  "seg_2 =
     \<lparr>id' = ''2'', startTime = 7, endTime = 15, text' = ''Parliamo di cibo italiano.'',
      translation = Some [], audioUrl = Some [], videoUrl = Some []\<rparr>"

definition seg_3 :: VideoSegment where
  "seg_3 =
     \<lparr>id' = ''3'', startTime = 14, endTime = 20, text' = ''Mi piace molto la pasta.'',
      translation = Some [], audioUrl = Some [], videoUrl = Some []\<rparr>"

definition failing_on :: "string \<Rightarrow> unit Extraction" where
  \<comment> \<open>a tool that fails at every run on the segment of this id and works on the others;
      the clock stands at 1000\<close>
  "failing_on segmentId =
     \<lparr>tool = (\<lambda>vid segment w.
               (if id' segment = segmentId then Some ''HTTP Error 403'' else None, w)),
      mkdirs = (\<lambda>w. (None, w)),
      now = (\<lambda>w. 1000)\<rparr>"

definition always_failing :: "unit Extraction" where
  \<comment> \<open>a tool that fails at every run\<close>
  "always_failing =
     \<lparr>tool = (\<lambda>vid segment w. (Some ''HTTP Error 403'', w)),
      mkdirs = (\<lambda>w. (None, w)),
      now = (\<lambda>w. 1000)\<rparr>"



definition C6_segment :: VideoSegment where
  \<comment> \<open>two seconds long, with a line feed inside the brackets\<close>
  "C6_segment =
     \<lparr>id' = ''1'', startTime = 0, endTime = 2, text' = ''[a'' @ [CHR 0x0A] @ ''b] c'',
      translation = Some ''x'', audioUrl = None, videoUrl = None\<rparr>"

definition mock_metadata :: VideoMetadata where
  "mock_metadata =
     \<lparr>title = ''Italian Conversation Practice - Mock Video'',
      description = ''A practice video for learning Italian pronunciation and conversation.'',
      duration = 300, thumbnail = ''https://img.youtube.com/vi/abcdefghijk/maxresdefault.jpg'',
      publishedAt = ''2024-01-01T00:00:00.000Z'', channelTitle = ''Italian Learning Channel''\<rparr>"

definition broken_tool :: "unit Services" where
  \<comment> \<open>every collaborator works, except that the extraction tool fails at every run\<close>
  "broken_tool =
     \<lparr>getVideoMetadata = (\<lambda>vid w. (Inr mock_metadata, w)),
      extractCaptions =
        (\<lambda>vid language w. (Inr ''Ciao, come stai? Sono molto felice di vederti oggi.'', w)),
      translate = (\<lambda>text source target w. (Inr ''Hello'', w)),
      extraction = always_failing,
      parseFloat = (\<lambda>s. None),
      numToString = (\<lambda>x. nat_to_string (nat \<lfloor>x\<rfloor>)),
      BACKEND_URL = None\<rparr>"

definition C3_request :: VideoProcessingRequest where
  "C3_request =
     \<lparr>videoUrl_r = ''https://www.youtube.com/watch?v=abcdefghijk'', segmentDuration_r = Some 8,
      includeTranslation = Some True\<rparr>"

definition C8_srt :: string where
  \<comment> \<open>three blocks: an annotation, a spoken line, and a line whose range ends before it starts\<close>
  "C8_srt =
     ''1'' @ [CHR 0x0A] @ ''00:00:00,000 --> 00:00:02,000'' @ [CHR 0x0A] @ ''[Music]''
       @ [CHR 0x0A, CHR 0x0A] @
     ''2'' @ [CHR 0x0A] @ ''00:00:02,000 --> 00:00:05,000'' @ [CHR 0x0A] @ ''Ciao, come stai?''
       @ [CHR 0x0A, CHR 0x0A] @
     ''3'' @ [CHR 0x0A] @ ''00:00:07,000 --> 00:00:06,000'' @ [CHR 0x0A] @ ''Bene.''
       @ [CHR 0x0A]"

definition C8_ttml :: string where
  \<comment> \<open>the same three captions as paragraphs\<close>
  "C8_ttml =
     ''<p begin='' @ [CHR 0x22] @ ''00:00:00.000'' @ [CHR 0x22] @ '' end='' @ [CHR 0x22]
       @ ''00:00:02.000'' @ [CHR 0x22] @ ''>[Music]</p>'' @
     ''<p begin='' @ [CHR 0x22] @ ''00:00:02.000'' @ [CHR 0x22] @ '' end='' @ [CHR 0x22]
       @ ''00:00:05.000'' @ [CHR 0x22] @ ''>Ciao, come stai?</p>'' @
     ''<p begin='' @ [CHR 0x22] @ ''00:00:07.000'' @ [CHR 0x22] @ '' end='' @ [CHR 0x22]
       @ ''00:00:06.000'' @ [CHR 0x22] @ ''>Bene.</p>''"

section \<open>Segment building: fuel, termination, the duration floor\<close>

lemma segment_loop_more_fuel:
  "segment_loop fuel urls opts maxEnd srt t sid segs = Some out \<Longrightarrow>
   segment_loop (fuel + k) urls opts maxEnd srt t sid segs = Some out"
proof (induction fuel arbitrary: t sid segs)
  case 0
  then show ?case by simp
next
  case (Suc fuel)
  then show ?case
    by (auto simp: Let_def split: if_splits)
qed

lemma build_segments_more_fuel:
  "build_segments fuel urls captions options = Some out \<Longrightarrow>
   build_segments (fuel + k) urls captions options = Some out"
  by (auto simp: build_segments_def segment_loop_more_fuel split: if_splits)

text \<open>
  The loop returns whenever the clock advances by at least some \<open>d > 0\<close> in both
  branches, which is the case when the segment duration is positive and the overlap
  below it.
\<close>

lemma segment_loop_returns:
  assumes "0 < d" "d \<le> segmentDuration opts" "d \<le> segmentDuration opts - overlap opts"
  shows "maxEnd - t \<le> real n * d \<Longrightarrow>
         \<exists>out. segment_loop (Suc n) urls opts maxEnd srt t sid segs = Some out"
proof (induction n arbitrary: t sid segs)
  case 0
  then show ?case by simp
next
  case (Suc n)
  have 1: "maxEnd - (t + segmentDuration opts) \<le> real n * d"
    using Suc.prems assms by (simp add: algebra_simps)
  have 2: "maxEnd - (t + (segmentDuration opts - overlap opts)) \<le> real n * d"
    using Suc.prems assms by (simp add: algebra_simps)
  show ?case
    apply (subst segment_loop.simps(2))
    using Suc.IH [OF 1] Suc.IH [OF 2]
    by (simp add: Let_def del: segment_loop.simps)
qed

lemma build_segments_returns:
  assumes "0 < segmentDuration (resolve_options options)"
    and "overlap (resolve_options options) < segmentDuration (resolve_options options)"
  shows "\<exists>fuel out. build_segments fuel urls captions options = Some out"
proof (cases "captions = []")
  case True
  then show ?thesis by (simp add: build_segments_def)
next
  case False
  define opts where "opts = resolve_options options"
  define d where "d = min (segmentDuration opts) (segmentDuration opts - overlap opts)"
  have d: "0 < d" "d \<le> segmentDuration opts" "d \<le> segmentDuration opts - overlap opts"
    using assms by (simp_all add: d_def opts_def)
  obtain n where n: "max_end captions - 0 < real n * d"
    using ex_less_of_nat_mult [OF d(1)] by blast
  then have "max_end captions - 0 \<le> real n * d" by simp
  from segment_loop_returns [OF d this]
  obtain out where
    "segment_loop (Suc n) urls opts (max_end captions) (sort_key start captions) 0 1 [] = Some out"
    by blast
  then have "build_segments (Suc n) urls captions options = Some out"
    using False unfolding build_segments_def opts_def by (simp del: segment_loop.simps)
  then show ?thesis by blast
qed

lemma segment_loop_floor:
  "segment_loop fuel urls opts maxEnd srt t sid segs = Some out \<Longrightarrow>
   \<forall>s \<in> set segs. minSegmentDuration opts \<le> endTime s - startTime s \<Longrightarrow>
   \<forall>s \<in> set out. minSegmentDuration opts \<le> endTime s - startTime s"
proof (induction fuel arbitrary: t sid segs)
  case 0
  then show ?case by simp
next
  case (Suc fuel)
  show ?case
  proof (cases "t < maxEnd")
    case False
    with Suc.prems show ?thesis by simp
  next
    case True
    define segmentEnd where "segmentEnd = min (t + segmentDuration opts) maxEnd"
    define caps where
      "caps = filter (\<lambda>caption. start caption < segmentEnd \<and> end' caption > t) srt"
    show ?thesis
    proof (cases "caps = []")
      case True
      with \<open>t < maxEnd\<close> Suc.prems(1) have
        "segment_loop fuel urls opts maxEnd srt (t + segmentDuration opts) sid segs = Some out"
        by (simp add: Let_def caps_def segmentEnd_def)
      then show ?thesis using Suc.IH Suc.prems(2) by blast
    next
      case False
      define a where "a = max t (start (hd caps))"
      define b where "b = min segmentEnd (end' (last caps))"
      show ?thesis
      proof (cases "minSegmentDuration opts \<le> b - a")
        case True
        define seg where "seg = \<lparr>id' = nat_to_string sid, startTime = a, endTime = b,
           text' = limit_words opts (combine_text caps), translation = Some [],
           audioUrl = fst (urls sid a b), videoUrl = snd (urls sid a b)\<rparr>"
        from \<open>t < maxEnd\<close> \<open>caps \<noteq> []\<close> True Suc.prems(1) have
          "segment_loop fuel urls opts maxEnd srt (t + (segmentDuration opts - overlap opts))
             (sid + 1) (segs @ [seg]) = Some out"
          by (simp add: Let_def caps_def segmentEnd_def a_def b_def seg_def)
        moreover have
          "\<forall>s \<in> set (segs @ [seg]). minSegmentDuration opts \<le> endTime s - startTime s"
          using Suc.prems(2) True by (simp add: seg_def)
        ultimately show ?thesis using Suc.IH by blast
      next
        case nf: False
        from \<open>t < maxEnd\<close> \<open>caps \<noteq> []\<close> nf Suc.prems(1) have
          "segment_loop fuel urls opts maxEnd srt (t + (segmentDuration opts - overlap opts))
             sid segs = Some out"
          by (simp add: Let_def caps_def segmentEnd_def a_def b_def)
        then show ?thesis using Suc.IH Suc.prems(2) by blast
      qed
    qed
  qed
qed

lemma build_segments_floor:
  "build_segments fuel urls captions options = Some segments \<Longrightarrow> s \<in> set segments \<Longrightarrow>
   minSegmentDuration (resolve_options options) \<le> endTime s - startTime s"
  using segment_loop_floor [of fuel urls "resolve_options options" "max_end captions"
      "sort_key start captions" 0 1 "[]" segments]
  by (auto simp: build_segments_def split: if_splits)

text \<open>
  A round of the loop whose window holds captions but is shorter, once clipped, than
  \<open>minSegmentDuration\<close> pushes nothing and does not count: the loop goes on from the next
  window with the same list of segments and the same \<open>segmentId\<close>.
\<close>

lemma short_window_step:
  assumes "currentTime < maxEnd"
    and "window_captions opts maxEnd sortedCaptions currentTime \<noteq> []"
    and "clipped_duration opts maxEnd sortedCaptions currentTime < minSegmentDuration opts"
  shows "segment_loop (Suc n) urls opts maxEnd sortedCaptions currentTime segmentId emitted =
         segment_loop n urls opts maxEnd sortedCaptions
           (currentTime + (segmentDuration opts - overlap opts)) segmentId emitted"
  using assms
  by (simp add: Let_def window_captions_def clipped_duration_def not_le [symmetric]
        del: not_le)

text \<open>
  C4. Whatever the captions and the options (in particular when the overlap is below
  the segment duration), every segment that \<^verbatim>\<open>createSegments\<close> or
  \<^verbatim>\<open>createVideoSegments\<close> returns lasts at least \<open>minSegmentDuration\<close>; and a window
  whose clipped bounds are closer than that produces no segment at all: in whatever state
  the loop meets such a window (any list of segments emitted so far, any \<open>segmentId\<close>, any
  clock), that round leaves the list and the \<open>segmentId\<close> as they are and only moves the
  clock to the next window.
\<close>

theorem segments_respect_duration_floor:
  assumes "overlap (resolve_options options) < segmentDuration (resolve_options options)"
  shows "(createSegments fuel captions options = Some segments
            \<or> createVideoSegments num fuel captions options = Some segments \<longrightarrow>
          (\<forall>s \<in> set segments.
             minSegmentDuration (resolve_options options) \<le> endTime s - startTime s)) \<and>
         (currentTime < maxEnd \<and>
          window_captions (resolve_options options) maxEnd sortedCaptions currentTime \<noteq> [] \<and>
          clipped_duration (resolve_options options) maxEnd sortedCaptions currentTime
            < minSegmentDuration (resolve_options options) \<longrightarrow>
          segment_loop (Suc n) urls (resolve_options options) maxEnd sortedCaptions currentTime
            segmentId emitted =
          segment_loop n urls (resolve_options options) maxEnd sortedCaptions
            (currentTime
             + (segmentDuration (resolve_options options) - overlap (resolve_options options)))
            segmentId emitted)"
proof (intro conjI impI)
  assume "createSegments fuel captions options = Some segments
            \<or> createVideoSegments num fuel captions options = Some segments"
  then show "\<forall>s \<in> set segments.
             minSegmentDuration (resolve_options options) \<le> endTime s - startTime s"
    using build_segments_floor
    unfolding createSegments_def createVideoSegments_def by blast
next
  assume "currentTime < maxEnd \<and>
          window_captions (resolve_options options) maxEnd sortedCaptions currentTime \<noteq> [] \<and>
          clipped_duration (resolve_options options) maxEnd sortedCaptions currentTime
            < minSegmentDuration (resolve_options options)"
  then show "segment_loop (Suc n) urls (resolve_options options) maxEnd sortedCaptions currentTime
            segmentId emitted =
          segment_loop n urls (resolve_options options) maxEnd sortedCaptions
            (currentTime
             + (segmentDuration (resolve_options options) - overlap (resolve_options options)))
            segmentId emitted"
    by (intro short_window_step) simp_all
qed

theorem segments_respect_duration_floor_witness:
  "overlap (resolve_options no_options) < segmentDuration (resolve_options no_options) \<and>
   createSegments 3 C4_captions no_options = Some [C4_segment] \<and>
   minSegmentDuration (resolve_options no_options) \<le> endTime C4_segment - startTime C4_segment \<and>
   7 < max_end C4_captions \<and>
   window_captions (resolve_options no_options) (max_end C4_captions)
       (sort_key start C4_captions) 7 =
     [\<lparr>start = 5, end' = 9, text_c = ''Mi piace molto la pasta.''\<rparr>] \<and>
   clipped_duration (resolve_options no_options) (max_end C4_captions)
       (sort_key start C4_captions) 7 = 2 \<and>
   2 < minSegmentDuration (resolve_options no_options) \<and>
   segment_loop (Suc 1) (\<lambda>i a b. (Some [], Some [])) (resolve_options no_options)
       (max_end C4_captions) (sort_key start C4_captions) 7 2 [C4_segment] =
     segment_loop 1 (\<lambda>i a b. (Some [], Some [])) (resolve_options no_options)
       (max_end C4_captions) (sort_key start C4_captions)
       (7 + (segmentDuration (resolve_options no_options) - overlap (resolve_options no_options)))
       2 [C4_segment] \<and>
   segment_loop 1 (\<lambda>i a b. (Some [], Some [])) (resolve_options no_options)
       (max_end C4_captions) (sort_key start C4_captions)
       (7 + (segmentDuration (resolve_options no_options) - overlap (resolve_options no_options)))
       2 [C4_segment] = Some [C4_segment]"
proof -
  have 1: "overlap (resolve_options no_options) < segmentDuration (resolve_options no_options)"
    by (simp add: resolve_options_def no_options_def or_default_def)
  have 2: "createSegments 3 C4_captions no_options = Some [C4_segment]"
    by code_simp
  have 4: "7 < max_end C4_captions"
    by (simp add: C4_captions_def)
  have 5: "window_captions (resolve_options no_options) (max_end C4_captions)
       (sort_key start C4_captions) 7 =
     [\<lparr>start = 5, end' = 9, text_c = ''Mi piace molto la pasta.''\<rparr>]"
    by code_simp
  have 6: "clipped_duration (resolve_options no_options) (max_end C4_captions)
       (sort_key start C4_captions) 7 = 2"
    by code_simp
  have 7: "2 < minSegmentDuration (resolve_options no_options)"
    by (simp add: resolve_options_def no_options_def or_default_def)
  have 8: "segment_loop 1 (\<lambda>i a b. (Some [], Some [])) (resolve_options no_options)
       (max_end C4_captions) (sort_key start C4_captions)
       (7 + (segmentDuration (resolve_options no_options) - overlap (resolve_options no_options)))
       2 [C4_segment] = Some [C4_segment]"
    by code_simp
  note t = segments_respect_duration_floor [OF 1, of 3 C4_captions "[C4_segment]" "\<lambda>x. []"
      7 "max_end C4_captions" "sort_key start C4_captions" 1 "\<lambda>i a b. (Some [], Some [])"
      2 "[C4_segment]"]
  have 3: "minSegmentDuration (resolve_options no_options)
             \<le> endTime C4_segment - startTime C4_segment"
    using t 2 by simp
  have 9: "segment_loop (Suc 1) (\<lambda>i a b. (Some [], Some [])) (resolve_options no_options)
       (max_end C4_captions) (sort_key start C4_captions) 7 2 [C4_segment] =
     segment_loop 1 (\<lambda>i a b. (Some [], Some [])) (resolve_options no_options)
       (max_end C4_captions) (sort_key start C4_captions)
       (7 + (segmentDuration (resolve_options no_options) - overlap (resolve_options no_options)))
       2 [C4_segment]"
    using t 4 5 6 7 by (simp del: segment_loop.simps)
  from 1 2 3 4 5 6 7 8 9 show ?thesis by (simp del: segment_loop.simps)
qed

section \<open>The two-caption example\<close>

text \<open>
  C1, as the code has it. The two captions give two segments, not one: the first
  window is \<open>[0, 8)\<close> and holds both captions, the clock then moves to 7, and the
  window \<open>[7, 10)\<close> holds the second caption for exactly the minimum of 3 seconds.
  Any fuel from 3 on gives this result, in the back end and, with its locators, in the
  front end.
\<close>

theorem two_captions_give_two_segments:
  "createSegments (3 + k) C1_captions no_options =
     Some [\<lparr>id' = ''1'', startTime = 0, endTime = 8,
            text' = ''Ciao, come stai? Sono molto felice di vederti oggi.'',
            translation = Some [], audioUrl = Some [], videoUrl = Some []\<rparr>,
           \<lparr>id' = ''2'', startTime = 7, endTime = 10,
            text' = ''Sono molto felice di vederti oggi.'',
            translation = Some [], audioUrl = Some [], videoUrl = Some []\<rparr>] \<and>
   createVideoSegments num (3 + k) C1_captions no_options =
     Some [\<lparr>id' = ''1'', startTime = 0, endTime = 8,
            text' = ''Ciao, come stai? Sono molto felice di vederti oggi.'',
            translation = Some [],
            audioUrl = Some (''/api/audio/segment_1_'' @ num 0 @ ''_'' @ num 8 @ ''.mp3''),
            videoUrl = Some (''/api/video/segment_1_'' @ num 0 @ ''_'' @ num 8 @ ''.mp4'')\<rparr>,
           \<lparr>id' = ''2'', startTime = 7, endTime = 10,
            text' = ''Sono molto felice di vederti oggi.'',
            translation = Some [],
            audioUrl = Some (''/api/audio/segment_2_'' @ num 7 @ ''_'' @ num 10 @ ''.mp3''),
            videoUrl = Some (''/api/video/segment_2_'' @ num 7 @ ''_'' @ num 10 @ ''.mp4'')\<rparr>]"
proof -
  have be: "createSegments 3 C1_captions no_options =
     Some [\<lparr>id' = ''1'', startTime = 0, endTime = 8,
            text' = ''Ciao, come stai? Sono molto felice di vederti oggi.'',
            translation = Some [], audioUrl = Some [], videoUrl = Some []\<rparr>,
           \<lparr>id' = ''2'', startTime = 7, endTime = 10,
            text' = ''Sono molto felice di vederti oggi.'',
            translation = Some [], audioUrl = Some [], videoUrl = Some []\<rparr>]"
    by code_simp
  have fe: "createVideoSegments num 3 C1_captions no_options =
     Some [\<lparr>id' = ''1'', startTime = 0, endTime = 8,
            text' = ''Ciao, come stai? Sono molto felice di vederti oggi.'',
            translation = Some [],
            audioUrl = Some (''/api/audio/segment_1_'' @ num 0 @ ''_'' @ num 8 @ ''.mp3''),
            videoUrl = Some (''/api/video/segment_1_'' @ num 0 @ ''_'' @ num 8 @ ''.mp4'')\<rparr>,
           \<lparr>id' = ''2'', startTime = 7, endTime = 10,
            text' = ''Sono molto felice di vederti oggi.'',
            translation = Some [],
            audioUrl = Some (''/api/audio/segment_2_'' @ num 7 @ ''_'' @ num 10 @ ''.mp3''),
            videoUrl = Some (''/api/video/segment_2_'' @ num 7 @ ''_'' @ num 10 @ ''.mp4'')\<rparr>]"
    by (code_simp, simp)
  from be fe show ?thesis
    unfolding createSegments_def createVideoSegments_def
    by (intro conjI build_segments_more_fuel)
qed

text \<open>
  C1, as the specification has it, fails: the result has two segments, and the first
  ends at 8, not at 10.
\<close>

theorem two_captions_not_one_segment:
  "length (the (createSegments 3 C1_captions no_options)) = 2 \<and>
   map endTime (the (createSegments 3 C1_captions no_options)) = [8, 10]"
  by code_simp

section \<open>Merging is idempotent\<close>

lemma gapped_snoc2:
  "gapped (xs @ [x, y]) = (gapped (xs @ [x]) \<and> \<not> startTime y - endTime x \<le> 2)"
  by (induction xs rule: gapped.induct) auto

lemma gapped_snoc_start:
  "gapped (xs @ [x]) \<Longrightarrow> startTime x' = startTime x \<Longrightarrow> gapped (xs @ [x'])"
  by (induction xs rule: gapped.induct) auto

lemma merge_loop_gapped:
  "gapped (merged @ [current]) \<Longrightarrow> gapped (merge_loop current rest merged)"
proof (induction rest arbitrary: current merged)
  case Nil
  then show ?case by simp
next
  case (Cons n rest)
  show ?case
  proof (cases "startTime n - endTime current \<le> 2")
    case True
    then show ?thesis
      using Cons.IH Cons.prems gapped_snoc_start by simp
  next
    case False
    then show ?thesis
      using Cons.IH [of "merged @ [current]" n] Cons.prems by (simp add: gapped_snoc2)
  qed
qed

lemma merge_loop_fixed:
  "gapped (current # rest) \<Longrightarrow> merge_loop current rest merged = merged @ current # rest"
  by (induction rest arbitrary: current merged) auto

lemma mergeAdjacentSegments_gapped: "gapped (mergeAdjacentSegments segments)"
proof (cases "length segments \<le> 1")
  case True
  then show ?thesis
    by (cases segments) (simp_all add: mergeAdjacentSegments_def)
next
  case False
  then show ?thesis
    by (simp add: mergeAdjacentSegments_def merge_loop_gapped)
qed

lemma mergeAdjacentSegments_fixed:
  "gapped segments \<Longrightarrow> mergeAdjacentSegments segments = segments"
  by (cases segments) (simp_all add: mergeAdjacentSegments_def merge_loop_fixed)

text \<open>
  C5. \<^verbatim>\<open>mergeAdjacentSegments\<close> is idempotent: its result has no two neighbours within
  2 seconds of each other, and it returns such a list as it is.
\<close>

theorem mergeAdjacentSegments_idempotent:
  "mergeAdjacentSegments (mergeAdjacentSegments segments) = mergeAdjacentSegments segments"
  by (rule mergeAdjacentSegments_fixed) (rule mergeAdjacentSegments_gapped)

section \<open>Repair keeps identity and bounds\<close>

lemma optimizeSegment_frame:
  "id' (optimizeSegment s) = id' s \<and> startTime (optimizeSegment s) = startTime s \<and>
   endTime (optimizeSegment s) = endTime s \<and> audioUrl (optimizeSegment s) = audioUrl s \<and>
   videoUrl (optimizeSegment s) = videoUrl s"
  by (simp add: optimizeSegment_def Let_def)

text \<open>
  C10. \<^verbatim>\<open>optimizeSegments\<close> returns as many segments as it is given and, position by
  position, leaves \<open>id\<close>, \<open>startTime\<close>, \<open>endTime\<close>, \<open>audioUrl\<close> and \<open>videoUrl\<close> as they are.
\<close>

theorem optimizeSegments_frame:
  "length (optimizeSegments segments) = length segments \<and>
   map id' (optimizeSegments segments) = map id' segments \<and>
   map startTime (optimizeSegments segments) = map startTime segments \<and>
   map endTime (optimizeSegments segments) = map endTime segments \<and>
   map audioUrl (optimizeSegments segments) = map audioUrl segments \<and>
   map videoUrl (optimizeSegments segments) = map videoUrl segments"
  by (simp add: optimizeSegments_def optimizeSegment_frame)

section \<open>The progress query\<close>

text \<open>
  What the query does return: nothing exactly when no record is of the video, and
  otherwise the first record of the video in the order of registration.
\<close>

lemma getProgress_None:
  "(getProgress progressMap vid = None) = (\<forall>(key, p) \<in> set progressMap. videoId p \<noteq> vid)"
proof -
  have "(filter (\<lambda>(key, p). videoId p = vid) progressMap = []) =
        (\<forall>(key, p) \<in> set progressMap. videoId p \<noteq> vid)"
    by (auto simp: filter_empty_conv)
  then show ?thesis
    by (cases "filter (\<lambda>(key, p). videoId p = vid) progressMap")
       (auto simp: getProgress_def)
qed

lemma getProgress_first:
  assumes "\<forall>(k, q) \<in> set earlier. videoId q \<noteq> vid" "videoId p = vid"
  shows "getProgress (earlier @ (key, p) # later) vid = Some p"
proof -
  have "filter (\<lambda>(key, p). videoId p = vid) earlier = []"
    using assms(1) by (auto simp: filter_empty_conv)
  then show ?thesis using assms(2) by (simp add: getProgress_def)
qed

text \<open>
  C7. With two jobs of the same video in the store, \<^verbatim>\<open>getProgress\<close> returns the
  record of the job registered first, although the second job wrote last: the loop
  returns at the first match in insertion order.
\<close>

theorem getProgress_returns_first_registered:
  "getProgress two_jobs ''abc'' = Some job_old \<and>
   map_of two_jobs ''abc_2000'' =
     Some (job_new\<lparr>status := processing, currentSegment := Some 1, progress := 0\<rparr>)"
  by code_simp

section \<open>Retries of the extraction\<close>

lemma map_of_updateProgress:
  "map_of (updateProgress progressId f progressMap) progressId =
   map_option f (map_of progressMap progressId)"
  by (simp add: updateProgress_def update_conv' split: option.splits)

lemma processSegment_ok:
  "tool ext vid seg w = (None, w') \<Longrightarrow>
   processSegment ext vid seg rc (w, tr) = (Inr (), w', tr @ [Attempt (id' seg) rc])"
  by (simp add: processSegment.simps)

lemma processSegment_retry:
  "tool ext vid seg w = (Some m, w') \<Longrightarrow> rc < maxRetries \<Longrightarrow>
   processSegment ext vid seg rc (w, tr) =
   processSegment ext vid seg (rc + 1) (w', tr @ [Attempt (id' seg) rc, Sleep (2000 * (rc + 1))])"
  by (subst processSegment.simps) simp

lemma processSegment_throw:
  "tool ext vid seg w = (Some m, w') \<Longrightarrow> \<not> rc < maxRetries \<Longrightarrow>
   processSegment ext vid seg rc (w, tr) =
   (Inl (''yt-dlp processing error: '' @ m), w', tr @ [Attempt (id' seg) rc])"
  by (subst processSegment.simps) simp

lemma tool_fails:
  "\<forall>w. fst (tool ext vid seg w) \<noteq> None \<Longrightarrow> \<exists>m w'. tool ext vid seg w = (Some m, w')"
proof -
  assume "\<forall>w. fst (tool ext vid seg w) \<noteq> None"
  then have "fst (tool ext vid seg w) \<noteq> None" by simp
  then show ?thesis by (cases "tool ext vid seg w") auto
qed

lemma tool_succeeds:
  "\<forall>w. fst (tool ext vid seg w) = None \<Longrightarrow> \<exists>w'. tool ext vid seg w = (None, w')"
proof -
  assume "\<forall>w. fst (tool ext vid seg w) = None"
  then have "fst (tool ext vid seg w) = None" by simp
  then show ?thesis by (cases "tool ext vid seg w") auto
qed

lemma processSegment_gives_up:
  assumes "\<forall>w. fst (tool ext vid seg w) \<noteq> None"
  shows "\<exists>err w'. processSegment ext vid seg 0 (w, tr) =
           (Inl err, w',
            tr @ [Attempt (id' seg) 0, Sleep 2000, Attempt (id' seg) 1, Sleep 4000,
                  Attempt (id' seg) 2, Sleep 6000, Attempt (id' seg) 3])"
proof -
  obtain m0 w0 where 0: "tool ext vid seg w = (Some m0, w0)"
    using tool_fails [OF assms] by blast
  obtain m1 w1 where 1: "tool ext vid seg w0 = (Some m1, w1)"
    using tool_fails [OF assms] by blast
  obtain m2 w2 where 2: "tool ext vid seg w1 = (Some m2, w2)"
    using tool_fails [OF assms] by blast
  obtain m3 w3 where 3: "tool ext vid seg w2 = (Some m3, w3)"
    using tool_fails [OF assms] by blast
  have "processSegment ext vid seg 0 (w, tr) =
        processSegment ext vid seg 1 (w0, tr @ [Attempt (id' seg) 0, Sleep 2000])"
    using processSegment_retry [OF 0, of 0 tr] by (simp add: maxRetries_def eval_nat_numeral)
  also have "\<dots> = processSegment ext vid seg 2
        (w1, tr @ [Attempt (id' seg) 0, Sleep 2000, Attempt (id' seg) 1, Sleep 4000])"
    using processSegment_retry [OF 1, of 1] by (simp add: maxRetries_def eval_nat_numeral)
  also have "\<dots> = processSegment ext vid seg 3
        (w2, tr @ [Attempt (id' seg) 0, Sleep 2000, Attempt (id' seg) 1, Sleep 4000,
                   Attempt (id' seg) 2, Sleep 6000])"
    using processSegment_retry [OF 2, of 2] by (simp add: maxRetries_def eval_nat_numeral)
  also have "\<dots> = (Inl (''yt-dlp processing error: '' @ m3), w3,
        tr @ [Attempt (id' seg) 0, Sleep 2000, Attempt (id' seg) 1, Sleep 4000,
              Attempt (id' seg) 2, Sleep 6000, Attempt (id' seg) 3])"
    using processSegment_throw [OF 3, of 3] by (simp add: maxRetries_def eval_nat_numeral)
  finally show ?thesis by blast
qed

lemma segments_loop_fails_at:
  assumes good: "\<forall>g \<in> set good. \<forall>w. fst (tool ext vid g w) = None"
    and bad: "\<forall>w. fst (tool ext vid bad w) \<noteq> None"
  shows "map_of pm pid = Some p \<Longrightarrow>
    \<exists>err pm' w'. segments_loop ext vid pid n (good @ bad # rest) i (pm, w, tr) =
       (Inl err, pm', w', tr @ map (\<lambda>g. Attempt (id' g) 0) good @ give_up (id' bad)) \<and>
       map_of pm' pid =
         Some (p\<lparr>currentSegment := Some (i + length good + 1),
                 progress := round_percent (i + length good) n\<rparr>)"
  using good
proof (induction good arbitrary: i pm w tr p)
  case Nil
  obtain err w' where "processSegment ext vid bad 0 (w, tr) = (Inl err, w', tr @ give_up (id' bad))"
    using processSegment_gives_up [OF bad] unfolding give_up_def by blast
  then show ?case using Nil.prems(1)
    by (simp add: map_of_updateProgress)
next
  case (Cons g good)
  have "\<forall>w. fst (tool ext vid g w) = None"
    using Cons.prems(2) by simp
  from tool_succeeds [OF this, of w] obtain w1 where w1: "tool ext vid g w = (None, w1)"
    by blast
  define pm1 where "pm1 = updateProgress pid
              (\<lambda>p. p\<lparr>currentSegment := Some (i + 1), progress := round_percent i n\<rparr>) pm"
  have pm1: "map_of pm1 pid = Some (p\<lparr>currentSegment := Some (i + 1), progress := round_percent i n\<rparr>)"
    using Cons.prems(1) by (simp add: pm1_def map_of_updateProgress)
  have step: "segments_loop ext vid pid n ((g # good) @ bad # rest) i (pm, w, tr) =
        segments_loop ext vid pid n (good @ bad # rest) (i + 1) (pm1, w1, tr @ [Attempt (id' g) 0])"
    using processSegment_ok [OF w1, of 0 tr] by (simp add: pm1_def)
  have "\<forall>g \<in> set good. \<forall>w. fst (tool ext vid g w) = None"
    using Cons.prems(2) by simp
  from Cons.IH [OF pm1 this, of "i + 1" w1 "tr @ [Attempt (id' g) 0]"] step
  show ?case by simp
qed

text \<open>
  C2, as the code has it. When the tool succeeds at once on the segments \<open>good\<close> and
  fails at every run on the next segment \<open>bad\<close>, the orchestrator runs the tool on
  \<open>bad\<close> four times, the first attempt and \<open>maxRetries = 3\<close> retries, waiting 2, 4 and
  6 seconds before the retries; it runs nothing after that, and the job's record ends
  with status \<open>failed\<close> and with \<open>currentSegment\<close> the 1-based index of \<open>bad\<close>.
\<close>

theorem extraction_gives_up_after_three_retries:
  assumes "fst (mkdirs ext w) = None"
    and "\<forall>g \<in> set good. \<forall>w. fst (tool ext vid g w) = None"
    and "\<forall>w. fst (tool ext vid bad w) \<noteq> None"
  shows "\<exists>progressMap' w' p.
     processSegments ext vid (good @ bad # rest) (progressMap, w, trace) =
       (progressMap', w',
        trace @ map (\<lambda>g. Attempt (id' g) 0) good @
          [Attempt (id' bad) 0, Sleep 2000, Attempt (id' bad) 1, Sleep 4000,
           Attempt (id' bad) 2, Sleep 6000, Attempt (id' bad) 3]) \<and>
     map_of progressMap' (progress_key vid (now ext w)) = Some p \<and>
     status p = failed \<and> currentSegment p = Some (length good + 1)"
proof -
  let ?segments = "good @ bad # rest"
  let ?pid = "progress_key vid (now ext w)"
  let ?p0 = "\<lparr>videoId = vid, status = pending, progress = 0, currentSegment = None,
              totalSegments = Some (length ?segments), error' = None,
              startTime_p = Some (now ext w), endTime_p = None\<rparr>"
  let ?pm2 = "updateProgress ?pid (\<lambda>p. p\<lparr>status := processing\<rparr>)
                (AList.update ?pid ?p0 progressMap)"
  let ?trace = "trace @ map (\<lambda>g. Attempt (id' g) 0) good @ give_up (id' bad)"
  obtain w1 where w1: "mkdirs ext w = (None, w1)"
    using assms(1) by (cases "mkdirs ext w") auto
  have pm2: "map_of ?pm2 ?pid = Some (?p0\<lparr>status := processing\<rparr>)"
    by (simp add: map_of_updateProgress update_conv')
  from segments_loop_fails_at [OF assms(2,3) pm2, of "length ?segments" rest 0 w1 trace]
  obtain err pm3 w3 where
    loop: "segments_loop ext vid ?pid (length ?segments) ?segments 0 (?pm2, w1, trace) =
             (Inl err, pm3, w3, ?trace)"
    and pm3: "map_of pm3 ?pid =
             Some (?p0\<lparr>status := processing, currentSegment := Some (0 + length good + 1),
                      progress := round_percent (0 + length good) (length ?segments)\<rparr>)"
    by auto
  have run: "processSegments ext vid ?segments (progressMap, w, trace) =
     (updateProgress ?pid (\<lambda>p. p\<lparr>status := failed, error' := Some err\<rparr>) pm3, w3, ?trace)"
    using w1 loop by (simp add: processSegments_def Let_def)
  have "map_of (updateProgress ?pid (\<lambda>p. p\<lparr>status := failed, error' := Some err\<rparr>) pm3) ?pid
     = Some (?p0\<lparr>status := processing, currentSegment := Some (0 + length good + 1),
                progress := round_percent (0 + length good) (length ?segments),
                status := failed, error' := Some err\<rparr>)"
    using pm3 by (simp add: map_of_updateProgress)
  with run show ?thesis
    unfolding give_up_def by simp
qed


theorem extraction_gives_up_after_three_retries_witness:
  "fst (mkdirs (failing_on ''2'') ()) = None \<and>
   (\<forall>w. fst (tool (failing_on ''2'') ''abc'' seg_1 w) = None) \<and>
   (\<forall>w. fst (tool (failing_on ''2'') ''abc'' seg_2 w) \<noteq> None) \<and>
   (\<exists>progressMap' w' p.
      processSegments (failing_on ''2'') ''abc'' ([seg_1] @ seg_2 # [seg_3]) ([], (), []) =
        (progressMap', w',
         [] @ map (\<lambda>g. Attempt (id' g) 0) [seg_1] @
           [Attempt (id' seg_2) 0, Sleep 2000, Attempt (id' seg_2) 1, Sleep 4000,
            Attempt (id' seg_2) 2, Sleep 6000, Attempt (id' seg_2) 3]) \<and>
      map_of progressMap' (progress_key ''abc'' (now (failing_on ''2'') ())) = Some p \<and>
      status p = failed \<and> currentSegment p = Some (length [seg_1] + 1))"
proof -
  have 1: "fst (mkdirs (failing_on ''2'') ()) = None"
    by (simp add: failing_on_def)
  have 2: "\<forall>g \<in> set [seg_1]. \<forall>w. fst (tool (failing_on ''2'') ''abc'' g w) = None"
    by (simp add: failing_on_def seg_1_def)
  have 3: "\<forall>w. fst (tool (failing_on ''2'') ''abc'' seg_2 w) \<noteq> None"
    by (simp add: failing_on_def seg_2_def)
  from extraction_gives_up_after_three_retries [OF 1 2 3, of "[seg_3]" "[]" "[]"] 1 2 3
  show ?thesis by simp
qed

text \<open>
  C2, as the specification has it, fails on the number of attempts: with a tool that
  fails at every run, the first segment is attempted four times, not three.
\<close>

theorem always_failing_tool_is_run_four_times:
  "attempts_of ''1''
     (snd (snd (processSegments always_failing ''abc'' [seg_1, seg_2] ([], (), [])))) = 4"
  by code_simp

section \<open>Splitting and the sentence boundary\<close>























lemma trim_fixed:
  "s \<noteq> [] \<Longrightarrow> \<not> is_space (hd s) \<Longrightarrow> \<not> is_space (last s) \<Longrightarrow> trim s = s"
proof -
  assume s: "s \<noteq> []" and h: "\<not> is_space (hd s)" and l: "\<not> is_space (last s)"
  have 1: "dropWhile is_space s = s" using s h by (cases s) simp_all
  have 2: "dropWhile is_space (rev s) = rev s" using s l by (cases s rule: rev_cases) simp_all
  show ?thesis by (simp add: trim_def 1 2)
qed














section \<open>Cleanup and repair, applied twice\<close>

lemma no_pair_dropWhile: "no_pair a b s \<Longrightarrow> no_pair a b (dropWhile P s)"
  by (induction s) auto

lemma no_pair_tl: "no_pair a b s \<Longrightarrow> no_pair a b (tl s)"
  by (cases s) auto

lemma no_pair_append_left: "no_pair a b (xs @ ys) \<Longrightarrow> no_pair a b xs"
  by (induction xs) auto

lemma rev_dropWhile_rev: "rev (dropWhile P (rev s)) @ rev (takeWhile P (rev s)) = s"
proof -
  have "rev (takeWhile P (rev s) @ dropWhile P (rev s)) = s" by simp
  then show ?thesis by (simp only: rev_append)
qed

lemma no_pair_trim: "no_pair a b s \<Longrightarrow> no_pair a b (trim s)"
proof -
  assume "no_pair a b s"
  then have 1: "no_pair a b (dropWhile is_space s)" by (rule no_pair_dropWhile)
  have "no_pair a b (rev (dropWhile is_space (rev (dropWhile is_space s))) @
                     rev (takeWhile is_space (rev (dropWhile is_space s))))"
    using 1 by (simp only: rev_dropWhile_rev)
  then show ?thesis unfolding trim_def by (rule no_pair_append_left)
qed

lemma in_set_tl: "x \<in> set (tl s) \<Longrightarrow> x \<in> set s"
  by (cases s) auto

lemma in_set_tl_dropWhile: "x \<in> set (tl (dropWhile P s)) \<Longrightarrow> x \<in> set s"
  by (blast dest: in_set_tl set_dropWhileD)

lemma set_strip_tags: "set (strip_tags s) \<subseteq> set s"
proof (induction s rule: strip_tags.induct)
  case 1
  then show ?case by simp
next
  case (2 c cs)
  have "set (tl (dropWhile (\<lambda>x. x \<noteq> CHR ''>'') cs)) \<subseteq> set cs"
    by (blast dest: in_set_tl_dropWhile)
  with 2 show ?case by auto
qed

lemma set_bracket_rest: "set (tl (bracket_rest cs)) \<subseteq> set cs"
  unfolding bracket_rest_def by (blast dest: in_set_tl_dropWhile)

lemma set_strip_brackets: "set (strip_brackets s) \<subseteq> set s"
proof (induction s rule: strip_brackets.induct)
  case 1
  then show ?case by simp
next
  case (2 c cs)
  with set_bracket_rest [of cs] show ?case by auto
qed

lemma set_collapse_ws: "x \<in> set (collapse_ws s) \<Longrightarrow> x \<in> set s \<or> x = CHR '' ''"
proof (induction s rule: collapse_ws.induct)
  case 1
  then show ?case by simp
next
  case (2 c cs)
  then show ?case by (auto split: if_splits dest: set_dropWhileD)
qed

lemma no_pair_strip_tags: "no_pair (CHR ''<'') (CHR ''>'') (strip_tags s)"
proof (induction s rule: strip_tags.induct)
  case 1
  then show ?case by simp
next
  case (2 c cs)
  then show ?case using set_strip_tags [of cs] by auto
qed

lemma strip_tags_fixed: "no_pair (CHR ''<'') (CHR ''>'') s \<Longrightarrow> strip_tags s = s"
  by (induction s) auto

lemma no_pair_strip_brackets_keeps:
  "no_pair a b s \<Longrightarrow> no_pair a b (strip_brackets s)"
proof (induction s rule: strip_brackets.induct)
  case 1
  then show ?case by simp
next
  case (2 c cs)
  have "no_pair a b (tl (bracket_rest cs))"
    using 2(3) unfolding bracket_rest_def by (simp add: no_pair_dropWhile no_pair_tl)
  then show ?case using 2 set_strip_brackets [of cs] by auto
qed

lemma no_pair_collapse_ws_keeps:
  "\<not> is_space a \<Longrightarrow> \<not> is_space b \<Longrightarrow> no_pair a b s \<Longrightarrow> no_pair a b (collapse_ws s)"
proof (induction s rule: collapse_ws.induct)
  case 1
  then show ?case by simp
next
  case (2 c cs)
  have sp: "is_space (CHR '' '')" by (simp add: is_space_def)
  show ?case
  proof (cases "is_space c")
    case True
    then show ?thesis using 2 sp by (auto simp: no_pair_dropWhile)
  next
    case False
    then show ?thesis using 2 sp by (auto dest: set_collapse_ws)
  qed
qed


lemma bracket_rest_plain:
  "list_all (\<lambda>c. \<not> is_line_terminator c) cs \<Longrightarrow>
   bracket_rest cs = dropWhile (\<lambda>x. x \<noteq> CHR '']'') cs"
  unfolding bracket_rest_def by (induction cs) auto

lemma closing_found:
  "b \<in> set cs \<Longrightarrow> dropWhile (\<lambda>x. x \<noteq> b) cs \<noteq> [] \<and> hd (dropWhile (\<lambda>x. x \<noteq> b) cs) = b"
  by (induction cs) auto

lemma no_pair_strip_brackets:
  "list_all (\<lambda>c. \<not> is_line_terminator c) s \<Longrightarrow>
   no_pair (CHR ''['') (CHR '']'') (strip_brackets s)"
proof (induction s rule: strip_brackets.induct)
  case 1
  then show ?case by simp
next
  case (2 c cs)
  have cs: "list_all (\<lambda>c. \<not> is_line_terminator c) cs" using 2(3) by simp
  show ?case
  proof (cases "c = CHR ''['' \<and> bracket_rest cs \<noteq> [] \<and> hd (bracket_rest cs) = CHR '']''")
    case True
    have "list_all (\<lambda>c. \<not> is_line_terminator c) (tl (bracket_rest cs))"
      using cs set_bracket_rest [of cs] by (auto simp: list_all_iff)
    then show ?thesis using True 2(1) by simp
  next
    case False
    have "c = CHR ''['' \<Longrightarrow> CHR '']'' \<notin> set cs"
      using False closing_found [of "CHR '']''" cs] bracket_rest_plain [OF cs] by auto
    then have "c = CHR ''['' \<Longrightarrow> CHR '']'' \<notin> set (strip_brackets cs)"
      using set_strip_brackets [of cs] by auto
    then show ?thesis using False 2(2) cs by auto
  qed
qed

lemma bracket_rest_no_closing:
  "CHR '']'' \<notin> set cs \<Longrightarrow> \<not> (bracket_rest cs \<noteq> [] \<and> hd (bracket_rest cs) = CHR '']'')"
proof
  assume a: "CHR '']'' \<notin> set cs" and b: "bracket_rest cs \<noteq> [] \<and> hd (bracket_rest cs) = CHR '']''"
  then have "bracket_rest cs \<noteq> []" by simp
  then have "hd (bracket_rest cs) \<in> set (bracket_rest cs)" by (rule hd_in_set)
  then have "hd (bracket_rest cs) \<in> set cs"
    unfolding bracket_rest_def by (rule set_dropWhileD)
  with a b show False by simp
qed

lemma strip_brackets_fixed: "no_pair (CHR ''['') (CHR '']'') s \<Longrightarrow> strip_brackets s = s"
  by (induction s) (auto dest: bracket_rest_no_closing)

lemma ws_normal_collapse_ws: "ws_normal (collapse_ws s)"
proof (induction s rule: collapse_ws.induct)
  case 1
  then show ?case by simp
next
  case (2 c cs)
  show ?case
  proof (cases "is_space c")
    case True
    show ?thesis
    proof (cases "dropWhile is_space cs")
      case Nil
      have "collapse_ws (c # cs) = CHR '' '' # collapse_ws (dropWhile is_space cs)"
        using True by simp
      then show ?thesis unfolding Nil by simp
    next
      case (Cons d r)
      have d: "\<not> is_space d"
        using hd_dropWhile [of is_space cs] Cons by simp
      have "collapse_ws (c # cs) = CHR '' '' # collapse_ws (dropWhile is_space cs)"
        using True by simp
      moreover have "ws_normal (collapse_ws (dropWhile is_space cs))"
        using True 2(1) by simp
      ultimately show ?thesis unfolding Cons using d by simp
    qed
  next
    case False
    then show ?thesis using 2(2)
      by (cases "collapse_ws cs") auto
  qed
qed

lemma collapse_ws_fixed: "ws_normal s \<Longrightarrow> collapse_ws s = s"
  by (induction s rule: ws_normal.induct) auto

lemma ws_normal_dropWhile: "ws_normal s \<Longrightarrow> ws_normal (dropWhile P s)"
  by (induction s rule: ws_normal.induct) auto

lemma ws_normal_append_left: "ws_normal (xs @ ys) \<Longrightarrow> ws_normal xs"
proof (induction xs rule: ws_normal.induct)
  case 1
  then show ?case by simp
next
  case (2 c)
  then show ?case by (cases ys) auto
next
  case (3 c d cs)
  then show ?case by auto
qed

lemma ws_normal_trim: "ws_normal s \<Longrightarrow> ws_normal (trim s)"
proof -
  assume "ws_normal s"
  then have 1: "ws_normal (dropWhile is_space s)" by (rule ws_normal_dropWhile)
  have "ws_normal (rev (dropWhile is_space (rev (dropWhile is_space s))) @
                   rev (takeWhile is_space (rev (dropWhile is_space s))))"
    using 1 by (simp only: rev_dropWhile_rev)
  then show ?thesis unfolding trim_def by (rule ws_normal_append_left)
qed

lemma last_dropWhile: "dropWhile P xs \<noteq> [] \<Longrightarrow> last (dropWhile P xs) = last xs"
  by (induction xs) (auto split: if_splits)

lemma trim_ends:
  "trim s = [] \<or> (\<not> is_space (hd (trim s)) \<and> \<not> is_space (last (trim s)))"
proof (cases "trim s = []")
  case True
  then show ?thesis by simp
next
  case False
  let ?d = "dropWhile is_space s"
  let ?z = "dropWhile is_space (rev ?d)"
  have z: "?z \<noteq> []" using False by (simp add: trim_def)
  have d: "?d \<noteq> []"
  proof
    assume a: "?d = []"
    have "?z = []" unfolding a by simp
    with z show False by simp
  qed
  have "\<not> is_space (hd ?z)" using z hd_dropWhile by blast
  then have l: "\<not> is_space (last (trim s))"
    using z by (simp add: trim_def last_rev)
  have "last ?z = last (rev ?d)" using z by (rule last_dropWhile)
  then have "hd (trim s) = hd ?d" using z d by (simp add: trim_def hd_rev last_rev)
  moreover have "\<not> is_space (hd ?d)" using d hd_dropWhile by blast
  ultimately show ?thesis using l by simp
qed

lemma trim_fixed':
  "s = [] \<or> (\<not> is_space (hd s) \<and> \<not> is_space (last s)) \<Longrightarrow> trim s = s"
  using trim_fixed [of s] by (cases "s = []") (auto simp: trim_def)

lemma trim_idem: "trim (trim s) = trim s"
  by (rule trim_fixed') (rule trim_ends)

lemma cleanText_idem:
  assumes "list_all (\<lambda>c. \<not> is_line_terminator c) t"
  shows "cleanText (cleanText t) = cleanText t"
proof -
  let ?u = "strip_tags t"
  let ?v = "strip_brackets ?u"
  let ?w = "collapse_ws ?v"
  have sp: "\<not> is_space (CHR ''<'')" "\<not> is_space (CHR ''>'')"
    "\<not> is_space (CHR ''['')" "\<not> is_space (CHR '']'')"
    by (simp_all add: is_space_def)
  have u: "list_all (\<lambda>c. \<not> is_line_terminator c) ?u"
    using assms set_strip_tags [of t] by (auto simp: list_all_iff)
  have tag: "no_pair (CHR ''<'') (CHR ''>'') (trim ?w)"
    using sp by (intro no_pair_trim no_pair_collapse_ws_keeps no_pair_strip_brackets_keeps
        no_pair_strip_tags)
  have br: "no_pair (CHR ''['') (CHR '']'') (trim ?w)"
    using sp u by (intro no_pair_trim no_pair_collapse_ws_keeps no_pair_strip_brackets)
  have ws: "ws_normal (trim ?w)"
    by (intro ws_normal_trim ws_normal_collapse_ws)
  show ?thesis
    unfolding cleanText_def
    by (simp only: strip_tags_fixed [OF tag] strip_brackets_fixed [OF br]
          collapse_ws_fixed [OF ws] trim_idem)
qed


lemma issues_formatting:
  "(''Contains formatting characters'' \<in> set (issues (assessSegmentQuality s))) =
   list_ex is_formatting (text' s)"
  by (simp add: assessSegmentQuality_def Let_def note_issue_def)

lemma issues_translation:
  "(''Missing translation'' \<in> set (issues (assessSegmentQuality s))) =
   (translation s = None \<or> translation s = Some [])"
  by (simp add: assessSegmentQuality_def Let_def note_issue_def)

lemma optimizeSegment_unfold:
  "optimizeSegment s =
     (if score (assessSegmentQuality s) \<ge> 0.8 then s
      else s\<lparr>text' := (if list_ex is_formatting (text' s) then cleanText (text' s) else text' s),
             translation := (if translation s = None \<or> translation s = Some []
                             then Some ''[Translation needed]'' else translation s)\<rparr>)"
  by (simp add: optimizeSegment_def Let_def issues_formatting issues_translation)

text \<open>
  Away from line terminators the repair is idempotent: after one pass no tag and no
  bracket pair is left and the white space is normal, so a second pass returns the
  segment as it is.
\<close>

lemma optimizeSegment_idem:
  assumes "list_all (\<lambda>c. \<not> is_line_terminator c) (text' s)"
  shows "optimizeSegment (optimizeSegment s) = optimizeSegment s"
proof (cases "score (assessSegmentQuality s) \<ge> 0.8")
  case True
  then show ?thesis by (simp add: optimizeSegment_unfold)
next
  case False
  define s1 where "s1 = optimizeSegment s"
  have text1: "text' s1 = (if list_ex is_formatting (text' s) then cleanText (text' s) else text' s)"
    and tr1: "translation s1 \<noteq> None \<and> translation s1 \<noteq> Some []"
    using False unfolding s1_def by (auto simp: optimizeSegment_unfold)
  have "list_ex is_formatting (text' s1) \<Longrightarrow> cleanText (text' s1) = text' s1"
    using text1 cleanText_idem [OF assms] by (auto split: if_splits)
  then have "optimizeSegment s1 = s1"
    using tr1 by (subst optimizeSegment_unfold) auto
  then show ?thesis unfolding s1_def .
qed

text \<open>
  C6. Optimizing the optimized segment again must not lower the assessed score. The code
  fails this on a segment whose text has a line feed between the brackets. The bracket
  pattern \<^verbatim>\<open>/\[.*?\]/g\<close> of \<^verbatim>\<open>cleanText\<close>, commented ``Remove [brackets] like [Music]'',
  does not match across a line feed (the tag pattern \<^verbatim>\<open>/<[^>]*>/g\<close> one line above it
  does), so the first repair leaves the pair in place and only turns the line feed into
  a blank: \<open>[a b] c\<close>. The second repair then removes the pair with two of the three
  words. The first result is assessed as too short in time and as containing formatting
  characters, the second as too short in time and too short in text, which costs more:
  the score falls (over the reals from 0.7 to 0.5).
\<close>

theorem optimize_again_lowers_score:
  "score (assessSegmentQuality (hd (optimizeSegments [hd (optimizeSegments [C6_segment])]))) <
     score (assessSegmentQuality (hd (optimizeSegments [C6_segment]))) \<and>
   text' (hd (optimizeSegments [C6_segment])) = ''[a b] c'' \<and>
   text' (hd (optimizeSegments [hd (optimizeSegments [C6_segment])])) = ''c'' \<and>
   issues (assessSegmentQuality (hd (optimizeSegments [C6_segment]))) =
     [''Segment too short'', ''Contains formatting characters''] \<and>
   issues (assessSegmentQuality (hd (optimizeSegments [hd (optimizeSegments [C6_segment])]))) =
     [''Segment too short'', ''Text too short''] \<and>
   score (assessSegmentQuality (hd (optimizeSegments [hd (optimizeSegments [C6_segment])]))) = 0.5 \<and>
   strip_brackets (''[a'' @ [CHR 0x0A] @ ''b] c'') = ''[a'' @ [CHR 0x0A] @ ''b] c'' \<and>
   strip_brackets ''[a b] c'' = '' c'' \<and>
   strip_tags (''<a'' @ [CHR 0x0A] @ ''b> c'') = '' c''"
  by code_simp

section \<open>What the parsers emit\<close>

text \<open>
  Both timed parsers push a caption only when its text is not empty, its start is not
  negative and its end is after its start; nothing in them throws.
\<close>

lemma push_valid_valid:
  "c \<in> set (push_valid s e t) \<Longrightarrow> start c \<ge> 0 \<and> end' c > start c \<and> text_c c \<noteq> []"
  by (auto simp: push_valid_def split: option.splits if_splits)

lemma parse_block_valid:
  "c \<in> set (parse_block pf block) \<Longrightarrow> start c \<ge> 0 \<and> end' c > start c \<and> text_c c \<noteq> []"
proof -
  assume c: "c \<in> set (parse_block pf block)"
  define lines where "lines = split_each (\<lambda>c. c = CHR 0x0A) (trim block)"
  have pb: "parse_block pf block =
     (if length lines \<ge> 3 then
        (case match_times (lines ! 1) of
           None \<Rightarrow> []
         | Some (m1, m2) \<Rightarrow>
             push_valid (parseTimeToSeconds pf m1) (parseTimeToSeconds pf m2)
               (trim (join_sp (drop 2 lines))))
      else [])"
    unfolding parse_block_def Let_def lines_def ..
  have long: "length lines \<ge> 3"
  proof (rule ccontr)
    assume "\<not> length lines \<ge> 3"
    then have "parse_block pf block = []" by (simp add: pb)
    with c show False by simp
  qed
  show ?thesis
  proof (cases "match_times (lines ! 1)")
    case None
    then have "parse_block pf block = []" by (simp add: pb)
    with c show ?thesis by simp
  next
    case (Some m)
    obtain m1 m2 where m: "m = (m1, m2)" by (cases m) auto
    have "parse_block pf block =
          push_valid (parseTimeToSeconds pf m1) (parseTimeToSeconds pf m2)
            (trim (join_sp (drop 2 lines)))"
      using long Some m by (simp add: pb)
    with c show ?thesis using push_valid_valid by metis
  qed
qed

lemma parseSRT_valid:
  "c \<in> set (parseSRT pf srtContent) \<Longrightarrow> start c \<ge> 0 \<and> end' c > start c \<and> text_c c \<noteq> []"
  by (auto simp: parseSRT_def dest: parse_block_valid)

lemma ttml_loop_valid:
  "c \<in> set (ttml_loop pf skip s) \<Longrightarrow> start c \<ge> 0 \<and> end' c > start c \<and> text_c c \<noteq> []"
proof (induction pf skip s rule: ttml_loop.induct)
  case (1 parseFloat skip)
  then show ?case by simp
next
  case (2 parseFloat skip c cs)
  then show ?case by simp
next
  case (3 parseFloat ch cs)
  show ?case
  proof (cases "match_paragraph (ch # cs)")
    case None
    then show ?thesis using 3 by simp
  next
    case (Some m)
    obtain m1 m2 m3 n where m: "m = ((m1, m2, m3), n)" by (cases m) auto
    from 3(3) Some m have
      "c \<in> set (push_valid (parseTimeToSeconds parseFloat m1) (parseTimeToSeconds parseFloat m2)
                  (CaptionProcessor_cleanText m3)) \<or>
       c \<in> set (ttml_loop parseFloat (n - 1) cs)"
      by simp
    then show ?thesis
      using 3(2) [OF Some [unfolded m] refl refl refl] push_valid_valid by blast
  qed
qed

lemma parseTTML_valid:
  "c \<in> set (parseTTML pf ttmlContent) \<Longrightarrow> start c \<ge> 0 \<and> end' c > start c \<and> text_c c \<noteq> []"
  unfolding parseTTML_def by (rule ttml_loop_valid)


text \<open>
  C8. The paragraph parser cleans the text before it tests it, the block parser does
  not: on a payload of three blocks (an annotation, a spoken line, a range that ends
  before it starts) the block parser drops the third block only and emits the
  annotation \<open>[Music]\<close> as a caption, although that text is empty once cleaned. The
  paragraph parser emits the spoken line alone.
\<close>

theorem parseSRT_emits_annotation:
  "parseCaptions pf C8_srt =
     [\<lparr>start = 0, end' = 2, text_c = ''[Music]''\<rparr>,
      \<lparr>start = 2, end' = 5, text_c = ''Ciao, come stai?''\<rparr>] \<and>
   CaptionProcessor_cleanText ''[Music]'' = [] \<and>
   parseCaptions pf C8_ttml = [\<lparr>start = 2, end' = 5, text_c = ''Ciao, come stai?''\<rparr>]"
  by code_simp

section \<open>The facade and a failed extraction\<close>

text \<open>
  Once the URL is resolved and the provider has answered twice, \<^verbatim>\<open>processVideo\<close>
  reports success whenever it returns: nothing that the extraction does reaches its
  result, because \<^verbatim>\<open>processSegments\<close> catches the error of a segment and only records
  it in the progress store.
\<close>

lemma processVideo_success:
  assumes "extractVideoId (videoUrl_r request) = Some vid"
    and "getVideoMetadata srv vid w = (Inr metadata, w1)"
    and "extractCaptions srv vid ''it'' w1 = (Inr captions, w2)"
    and "processVideo srv fuel request (progressMap, w, trace) = Some (response, st')"
  shows "success response"
  using assms
  by (auto simp: processVideo_def Let_def split: option.splits prod.splits sum.splits)


text \<open>
  C3. With an extraction tool that fails at every run, the retries of the first segment
  are exhausted and the job's record is \<open>failed\<close>, and yet the request returns
  \<open>success = true\<close>, with locators for clips that were never produced.
\<close>

theorem processVideo_succeeds_after_failed_extraction:
  "processVideo broken_tool 2 C3_request ([], (), []) =
     Some
      (\<lparr>success = True,
        data =
          Some
           \<lparr>data_videoId = ''abcdefghijk'',
            data_title = ''Italian Conversation Practice - Mock Video'',
            data_duration = 300,
            data_segments =
              [\<lparr>id' = ''1'', startTime = 0, endTime = 6,
                text' = ''Ciao, come stai Sono molto felice di vederti oggi'',
                translation = Some ''Hello'',
                audioUrl =
                  Some ''http://localhost:3001/processed/audio/abcdefghijk_0_6.mp3'',
                videoUrl =
                  Some ''http://localhost:3001/processed/video/abcdefghijk_0_6.mp4''\<rparr>],
            data_captions = ''Ciao, come stai Sono molto felice di vederti oggi'',
            data_thumbnail = ''https://img.youtube.com/vi/abcdefghijk/maxresdefault.jpg''\<rparr>,
        error_r = None\<rparr>,
       [(''abcdefghijk_1000'',
         \<lparr>videoId = ''abcdefghijk'', status = failed, progress = 0,
          currentSegment = Some 1, totalSegments = Some 1,
          error' = Some ''yt-dlp processing error: HTTP Error 403'',
          startTime_p = Some 1000, endTime_p = None\<rparr>)],
       (),
       [Attempt ''1'' 0, Sleep 2000, Attempt ''1'' 1, Sleep 4000,
        Attempt ''1'' 2, Sleep 6000, Attempt ''1'' 3])"
  by code_simp

end
